theory Spec2Isabelle
  imports Complex_Main
begin

section \<open>The HMI pixel-size notebook\<close>

text \<open>
  The notebook \<^verbatim>\<open>HMIpixelsize.ipynb\<close> has three code cells, run top to bottom:
  \<^verbatim>\<open>
  meta = sunpy.map.Map(path).meta
  dx = (2*np.pi*meta['CDELT2']*6.955e8/360)
  print(f'The HMI pixel size is {dx} meters.')

  (dx/1000-362.5)/100

  area = np.power(dx,2)
  print(f'The HMI pixel area is {area} meters squared.')
  \<close>
  Reading the FITS file is the work of \<^verbatim>\<open>sunpy\<close>; the model starts from the header
  mapping \<^verbatim>\<open>meta\<close>.

  The notebook is modelled twice. The first model takes Python floats as the reals they
  approximate; the statements proved on it are about the formula of the notebook and
  about what the cells check. The second model is the notebook kernel on IEEE 754
  doubles: every product, quotient and difference is rounded to the nearest double,
  overflows to an infinity and underflows through the subnormal numbers, the cells
  communicate through the kernel's globals, and the value of the second cell is
  displayed.
\<close>

subsection \<open>Header values and Python errors\<close>

text \<open>
  A header card holds a number (Python \<^verbatim>\<open>int\<close>, \<^verbatim>\<open>float\<close> or \<^verbatim>\<open>bool\<close>, all of
  which multiply with a float) or a string.
\<close>

datatype hval = HNum real | HStr string

type_synonym header = "string \<rightharpoonup> hval"

datatype py_error = KeyError string | TypeError | NameError string

text \<open>\<^verbatim>\<open>meta[k]\<close>: a missing key raises \<^verbatim>\<open>KeyError\<close>.\<close>

definition getitem :: "header \<Rightarrow> string \<Rightarrow> py_error + hval" where
  "getitem meta k = (case meta k of None \<Rightarrow> Inl (KeyError k) | Some v \<Rightarrow> Inr v)"

text \<open>\<^verbatim>\<open>x * v\<close> for a numpy float \<^verbatim>\<open>x\<close>: a string operand raises \<^verbatim>\<open>TypeError\<close>.\<close>

definition float_times :: "real \<Rightarrow> hval \<Rightarrow> py_error + real" where
  "float_times x v = (case v of HNum c \<Rightarrow> Inr (x * c) | HStr s \<Rightarrow> Inl TypeError)"

subsection \<open>The two formulas\<close>

text \<open>
  Line 49 of the notebook, as written, with the solar radius literal \<^verbatim>\<open>6.955e8\<close>.
  Python evaluates \<^verbatim>\<open>2*np.pi*c*6.955e8/360\<close> from the left, and so does the term.
\<close>

definition dx :: "real \<Rightarrow> real" where
  "dx cdelt = 2 * pi * cdelt * 695500000 / 360"

text \<open>The same expression with the radius literal taken as a parameter.\<close>

definition pixel_size :: "real \<Rightarrow> real \<Rightarrow> real" where
  "pixel_size rsun cdelt = 2 * pi * cdelt * rsun / 360"

text \<open>Line 103: \<^verbatim>\<open>np.power(dx,2)\<close>.\<close>

definition area :: "real \<Rightarrow> real" where
  "area d = d ^ 2"

text \<open>
  The second cell is a bare expression; the interpreter evaluates it and binds nothing
  (the notebook front end shows the value as \<^verbatim>\<open>Out[2]\<close>).
\<close>

definition percent_diff :: "real \<Rightarrow> real" where
  "percent_diff d = (d / 1000 - 362.5) / 100"

subsection \<open>Standard output\<close>

text \<open>
  An f-string is a sequence of literal text and formatted values. A printed line is kept
  in that form, so that the text around the number is exact and the number itself is the
  value that Python would format.
\<close>

datatype 'v piece = Lit string | Val 'v

type_synonym 'v line = "'v piece list"

definition size_line :: "'v \<Rightarrow> 'v line" where
  "size_line d = [Lit ''The HMI pixel size is '', Val d, Lit '' meters.'']"

definition area_line :: "'v \<Rightarrow> 'v line" where
  "area_line a = [Lit ''The HMI pixel area is '', Val a, Lit '' meters squared.'']"

subsection \<open>Running the notebook\<close>

text \<open>
  What a completed run leaves behind: the lines printed, and the two globals
  \<^verbatim>\<open>dx\<close> and \<^verbatim>\<open>area\<close>.
\<close>

record metrics =
  stdout :: "real line list"
  pixel_size_m :: real
  pixel_area_m2 :: real

text \<open>
  The cells in order, for a given radius. The subscript and the first product with the
  header value are the only steps that can raise; both come before the first
  \<^verbatim>\<open>print\<close>. No step inspects the sign of the value.
\<close>

definition notebook_at :: "real \<Rightarrow> header \<Rightarrow> py_error + metrics" where
  "notebook_at rsun meta =
     (case getitem meta ''CDELT2'' of
        Inl e \<Rightarrow> Inl e
      | Inr v \<Rightarrow>
          (case float_times (2 * pi) v of
             Inl e \<Rightarrow> Inl e
           | Inr t \<Rightarrow>
               (let d = t * rsun / 360;
                    out1 = [size_line d];
                    a = area d;
                    out2 = out1 @ [area_line a]
                in Inr \<lparr>stdout = out2, pixel_size_m = d, pixel_area_m2 = a\<rparr>)))"

text \<open>The notebook itself: the radius is the literal of line 49.\<close>

definition notebook :: "header \<Rightarrow> py_error + metrics" where
  "notebook meta = notebook_at 695500000 meta"

section \<open>The notebook on IEEE doubles\<close>

subsection \<open>Binary64 values and rounding\<close>

text \<open>
  A double is a finite real of the form \<open>m * 2^q\<close> with \<open>\<bar>m\<bar> < 2^53\<close> and
  \<open>- 1074 \<le> q \<le> 971\<close>, an infinity or a NaN. The two zeros are not distinguished: they
  compare equal in Python, and no statement below depends on the sign of a zero.
\<close>

datatype fp = Fin real | PInf | NInf | NaN

text \<open>
  Rounding to the nearest integer, ties to the even one.
\<close>

definition rhe :: "real \<Rightarrow> int" where
  "rhe y =
     (let f = \<lfloor>y\<rfloor>; r = y - of_int f
      in if r < 1 / 2 then f
         else if 1 / 2 < r then f + 1
         else if even f then f else f + 1)"

text \<open>
  The binary exponent of \<open>x\<close>, not below that of the smallest normal number, and the
  spacing of the doubles around \<open>x\<close>.
\<close>

definition expo :: "real \<Rightarrow> int" where
  "expo x = max \<lfloor>log 2 \<bar>x\<bar>\<rfloor> (- 1022)"

definition ulp :: "real \<Rightarrow> real" where
  "ulp x = 2 powr of_int (expo x - 52)"

text \<open>
  Halfway between the largest double and \<open>2^1024\<close>: from here on round-to-nearest overflows.
\<close>

definition threshold :: real where
  "threshold = 2 ^ 1024 - 2 ^ 970"

text \<open>The multiple of the spacing nearest to \<open>x\<close>, ties to the even multiple.\<close>

definition nearest :: "real \<Rightarrow> real" where
  "nearest x = of_int (rhe (x / ulp x)) * ulp x"

text \<open>
  Round-to-nearest-even of an exact result, as each IEEE operation does, and as Python
  does when it reads a decimal number.
\<close>

definition rnd :: "real \<Rightarrow> fp" where
  "rnd x =
     (if threshold \<le> x then PInf
      else if x \<le> - threshold then NInf
      else Fin (nearest x))"

fun fmul :: "fp \<Rightarrow> fp \<Rightarrow> fp" where
  "fmul (Fin x) (Fin y) = rnd (x * y)"
| "fmul (Fin x) PInf = (if x = 0 then NaN else if 0 < x then PInf else NInf)"
| "fmul (Fin x) NInf = (if x = 0 then NaN else if 0 < x then NInf else PInf)"
| "fmul PInf (Fin y) = (if y = 0 then NaN else if 0 < y then PInf else NInf)"
| "fmul NInf (Fin y) = (if y = 0 then NaN else if 0 < y then NInf else PInf)"
| "fmul PInf PInf = PInf"
| "fmul PInf NInf = NInf"
| "fmul NInf PInf = NInf"
| "fmul NInf NInf = PInf"
| "fmul NaN b = NaN"
| "fmul a NaN = NaN"

text \<open>
  Division as numpy does it (no exception). The divisors of the notebook are the
  literals 360, 1000 and 100; a zero divisor is taken as \<open>+0.0\<close>.
\<close>

fun fdiv :: "fp \<Rightarrow> fp \<Rightarrow> fp" where
  "fdiv (Fin x) (Fin y) =
     (if y = 0 then (if x = 0 then NaN else if 0 < x then PInf else NInf)
      else rnd (x / y))"
| "fdiv (Fin x) PInf = Fin 0"
| "fdiv (Fin x) NInf = Fin 0"
| "fdiv PInf (Fin y) = (if 0 \<le> y then PInf else NInf)"
| "fdiv NInf (Fin y) = (if 0 \<le> y then NInf else PInf)"
| "fdiv PInf PInf = NaN"
| "fdiv PInf NInf = NaN"
| "fdiv NInf PInf = NaN"
| "fdiv NInf NInf = NaN"
| "fdiv NaN b = NaN"
| "fdiv a NaN = NaN"

fun fsub :: "fp \<Rightarrow> fp \<Rightarrow> fp" where
  "fsub (Fin x) (Fin y) = rnd (x - y)"
| "fsub (Fin x) PInf = NInf"
| "fsub (Fin x) NInf = PInf"
| "fsub PInf (Fin y) = PInf"
| "fsub NInf (Fin y) = NInf"
| "fsub PInf NInf = PInf"
| "fsub NInf PInf = NInf"
| "fsub PInf PInf = NaN"
| "fsub NInf NInf = NaN"
| "fsub NaN b = NaN"
| "fsub a NaN = NaN"

text \<open>The order of Python's \<^verbatim>\<open><=\<close> on doubles: a NaN compares with nothing.\<close>

fun fle :: "fp \<Rightarrow> fp \<Rightarrow> bool" where
  "fle (Fin x) (Fin y) = (x \<le> y)"
| "fle (Fin x) PInf = True"
| "fle (Fin x) NInf = False"
| "fle PInf (Fin y) = False"
| "fle NInf (Fin y) = True"
| "fle PInf PInf = True"
| "fle PInf NInf = False"
| "fle NInf PInf = True"
| "fle NInf NInf = True"
| "fle NaN b = False"
| "fle a NaN = False"

text \<open>Python's \<^verbatim>\<open><\<close> on doubles.\<close>

definition flt :: "fp \<Rightarrow> fp \<Rightarrow> bool" where
  "flt a b \<longleftrightarrow> fle a b \<and> a \<noteq> b"

subsection \<open>The formulas on doubles\<close>

text \<open>\<^verbatim>\<open>np.pi\<close>, the double next to \<open>pi\<close>: \<^verbatim>\<open>0x1.921fb54442d18p+1\<close>.\<close>

definition np_pi :: fp where
  "np_pi = Fin (884279719003555 / 2 ^ 48)"

text \<open>
  Line 49 from the left: \<^verbatim>\<open>2*np.pi\<close>, times the header value, times the radius
  literal, divided by 360. The header value and the literal are decimal numbers, read
  as the nearest double.
\<close>

definition dx_fp :: "real \<Rightarrow> real \<Rightarrow> fp" where
  "dx_fp rsun cdelt =
     fdiv (fmul (fmul (fmul (Fin 2) np_pi) (rnd cdelt)) (rnd rsun)) (Fin 360)"

text \<open>Line 103: \<^verbatim>\<open>np.power(dx,2)\<close>, the square of \<^verbatim>\<open>dx\<close> rounded to a double.\<close>

definition area_fp :: "fp \<Rightarrow> fp" where
  "area_fp d = fmul d d"

text \<open>Line 79: \<^verbatim>\<open>(dx/1000-362.5)/100\<close>.\<close>

definition percent_fp :: "fp \<Rightarrow> fp" where
  "percent_fp d = fdiv (fsub (fdiv d (Fin 1000)) (Fin 362.5)) (Fin 100)"

subsection \<open>The kernel and its cells\<close>

text \<open>
  What running a cell shows: text written to standard output, or the value of the
  cell's last expression (\<^verbatim>\<open>Out[n]\<close>). The warning that numpy writes to standard
  error when an operation overflows is not part of the model.
\<close>

datatype cell_output = Stream "fp line" | Result fp

text \<open>The globals of the kernel that the cells bind and read.\<close>

record kernel =
  g_meta :: "header option"
  g_dx :: "fp option"
  g_area :: "fp option"

definition float_times_fp :: "fp \<Rightarrow> hval \<Rightarrow> py_error + fp" where
  "float_times_fp x v =
     (case v of HNum c \<Rightarrow> Inr (fmul x (rnd c)) | HStr s \<Rightarrow> Inl TypeError)"

text \<open>
  The first cell binds \<^verbatim>\<open>meta\<close> to the header that \<^verbatim>\<open>sunpy\<close> returns, then
  \<^verbatim>\<open>dx\<close>, and prints. A cell that raises shows its traceback and leaves no result.
\<close>

definition cell1 :: "real \<Rightarrow> header \<Rightarrow> kernel \<Rightarrow> py_error + cell_output list \<times> kernel" where
  "cell1 rsun file_meta k =
     (let k1 = k\<lparr>g_meta := Some file_meta\<rparr>
      in case getitem file_meta ''CDELT2'' of
           Inl e \<Rightarrow> Inl e
         | Inr v \<Rightarrow>
             (case float_times_fp (fmul (Fin 2) np_pi) v of
                Inl e \<Rightarrow> Inl e
              | Inr t \<Rightarrow>
                  (let d = fdiv (fmul t (rnd rsun)) (Fin 360)
                   in Inr ([Stream (size_line d)], k1\<lparr>g_dx := Some d\<rparr>))))"

text \<open>The second cell reads the global \<^verbatim>\<open>dx\<close> and displays a value.\<close>

definition cell2 :: "kernel \<Rightarrow> py_error + cell_output list \<times> kernel" where
  "cell2 k =
     (case g_dx k of
        None \<Rightarrow> Inl (NameError ''dx'')
      | Some d \<Rightarrow> Inr ([Result (percent_fp d)], k))"

text \<open>The third cell reads the global \<^verbatim>\<open>dx\<close>, binds \<^verbatim>\<open>area\<close> and prints.\<close>

definition cell3 :: "kernel \<Rightarrow> py_error + cell_output list \<times> kernel" where
  "cell3 k =
     (case g_dx k of
        None \<Rightarrow> Inl (NameError ''dx'')
      | Some d \<Rightarrow>
          (let a = area_fp d
           in Inr ([Stream (area_line a)], k\<lparr>g_area := Some a\<rparr>)))"

text \<open>
  Running the cells in order from a kernel in any state; the run stops at the first
  cell that raises.
\<close>

definition run_all :: "real \<Rightarrow> header \<Rightarrow> kernel \<Rightarrow> py_error + cell_output list \<times> kernel" where
  "run_all rsun file_meta k =
     (case cell1 rsun file_meta k of
        Inl e \<Rightarrow> Inl e
      | Inr (o1, k1) \<Rightarrow>
          (case cell2 k1 of
             Inl e \<Rightarrow> Inl e
           | Inr (o2, k2) \<Rightarrow>
               (case cell3 k2 of
                  Inl e \<Rightarrow> Inl e
                | Inr (o3, k3) \<Rightarrow> Inr (o1 @ o2 @ o3, k3))))"

text \<open>The lines of standard output among what a run shows.\<close>

fun stdout_of :: "cell_output list \<Rightarrow> fp line list" where
  "stdout_of [] = []"
| "stdout_of (Stream l # os) = l # stdout_of os"
| "stdout_of (Result v # os) = stdout_of os"

text \<open>A kernel that has run nothing yet.\<close>

definition fresh :: kernel where
  "fresh = \<lparr>g_meta = None, g_dx = None, g_area = None\<rparr>"

text \<open>What a run leaves bound to \<^verbatim>\<open>dx\<close> and to \<^verbatim>\<open>area\<close>, and what it shows.\<close>

definition size_of :: "py_error + cell_output list \<times> kernel \<Rightarrow> py_error + fp option" where
  "size_of res = map_sum id (\<lambda>(out, k). g_dx k) res"

definition area_of :: "py_error + cell_output list \<times> kernel \<Rightarrow> py_error + fp option" where
  "area_of res = map_sum id (\<lambda>(out, k). g_area k) res"

definition shown :: "py_error + cell_output list \<times> kernel \<Rightarrow> py_error + cell_output list" where
  "shown res = map_sum id fst res"

subsection \<open>Ranges and accumulated rounding error\<close>

text \<open>\<open>x\<close> lies between two powers of two.\<close>

definition between :: "int \<Rightarrow> int \<Rightarrow> real \<Rightarrow> bool" where
  "between a b x \<longleftrightarrow> 2 powr of_int a \<le> x \<and> x \<le> 2 powr of_int b"

text \<open>
  \<open>a\<close> approximates \<open>A\<close> with the relative error of at most \<open>k\<close> roundings, each of at
  most \<open>2^-53\<close>.
\<close>

definition approx :: "nat \<Rightarrow> real \<Rightarrow> real \<Rightarrow> bool" where
  "approx k a A \<longleftrightarrow> \<bar>a - A\<bar> \<le> ((1 + 1 / 2 ^ 53) ^ k - 1) * A"

section \<open>Basic facts\<close>

lemma dx_pixel_size: "dx c = pixel_size 695500000 c"
  by (simp add: dx_def pixel_size_def)

lemma notebook_at_num:
  assumes "meta ''CDELT2'' = Some (HNum c)"
  shows "notebook_at r meta =
           Inr \<lparr>stdout = [size_line (pixel_size r c), area_line (area (pixel_size r c))],
                pixel_size_m = pixel_size r c,
                pixel_area_m2 = area (pixel_size r c)\<rparr>"
  using assms
  by (simp add: notebook_at_def getitem_def float_times_def pixel_size_def Let_def)

lemma notebook_num:
  assumes "meta ''CDELT2'' = Some (HNum c)"
  shows "notebook meta =
           Inr \<lparr>stdout = [size_line (dx c), area_line (area (dx c))],
                pixel_size_m = dx c,
                pixel_area_m2 = area (dx c)\<rparr>"
  using assms notebook_at_num [of meta c 695500000]
  by (simp add: notebook_def dx_pixel_size)

lemma notebook_at_missing:
  "meta ''CDELT2'' = None \<Longrightarrow> notebook_at r meta = Inl (KeyError ''CDELT2'')"
  by (simp add: notebook_at_def getitem_def)

lemma notebook_at_str:
  "meta ''CDELT2'' = Some (HStr s) \<Longrightarrow> notebook_at r meta = Inl TypeError"
  by (simp add: notebook_at_def getitem_def float_times_def)

lemma notebook_at_cases:
  assumes "notebook_at r meta = Inr s"
  obtains c where "meta ''CDELT2'' = Some (HNum c)"
proof (cases "meta ''CDELT2''")
  case None
  with assms show ?thesis by (simp add: notebook_at_missing)
next
  case (Some v)
  show ?thesis
  proof (cases v)
    case (HNum c)
    with Some that show ?thesis by simp
  next
    case (HStr t)
    with Some assms show ?thesis by (simp add: notebook_at_str)
  qed
qed

section \<open>Bounds on pi\<close>

text \<open>
  The concrete scenarios need the digits of \<open>pi\<close>. They come from Machin's formula and
  the alternating series of the arctangent, whose partial sums enclose its value.
\<close>

lemma arctan_partial_sums:
  fixes x :: real
  assumes "0 < x" and "x \<le> 1"
  shows "(\<Sum>k<2 * n. (- 1) ^ k * (1 / real (k * 2 + 1) * x ^ (k * 2 + 1))) \<le> arctan x"
    and "arctan x \<le> (\<Sum>k<2 * n + 1. (- 1) ^ k * (1 / real (k * 2 + 1) * x ^ (k * 2 + 1)))"
proof -
  let ?a = "\<lambda>k. 1 / real (k * 2 + 1) * x ^ (k * 2 + 1)"
  have ax: "\<bar>x\<bar> \<le> 1"
    using assms by simp
  have first: "0 < ?a 0"
    using assms(1) by simp
  have "(\<Sum>i. (- 1) ^ i * ?a i) \<in> {\<Sum>i<2 * n. (- 1) ^ i * ?a i .. \<Sum>i<2 * n + 1. (- 1) ^ i * ?a i}"
    using summable_Leibniz(2) [OF zeroseq_arctan_series [OF ax] monoseq_arctan_series [OF ax]] first
    by blast
  moreover have "arctan x = (\<Sum>i. (- 1) ^ i * ?a i)"
    by (rule arctan_series [OF ax])
  ultimately show "(\<Sum>k<2 * n. (- 1) ^ k * ?a k) \<le> arctan x"
    and "arctan x \<le> (\<Sum>k<2 * n + 1. (- 1) ^ k * ?a k)"
    by simp_all
qed

lemma arctan_fifth_lower: "19739555984953 / 100000000000000 \<le> arctan (1 / 5 :: real)"
  using arctan_partial_sums(1) [of "1 / 5" 4] by (simp add: eval_nat_numeral)

lemma arctan_fifth_upper: "arctan (1 / 5 :: real) \<le> 19739555984989 / 100000000000000"
  using arctan_partial_sums(2) [of "1 / 5" 4] by (simp add: eval_nat_numeral)

lemma arctan_239_lower: "4184076002074 / 1000000000000000 \<le> arctan (1 / 239 :: real)"
  using arctan_partial_sums(1) [of "1 / 239" 2] by (simp add: eval_nat_numeral)

lemma arctan_239_upper: "arctan (1 / 239 :: real) \<le> 4184076002075 / 1000000000000000"
  using arctan_partial_sums(2) [of "1 / 239" 2] by (simp add: eval_nat_numeral)

lemma pi_lower: "314159265358 / 100000000000 \<le> pi"
proof -
  have "pi = 16 * arctan (1 / 5) - 4 * arctan (1 / 239)"
    using machin by simp
  with arctan_fifth_lower arctan_239_upper show ?thesis by simp
qed

lemma pi_upper: "pi \<le> 31415926536 / 10000000000"
proof -
  have "pi = 16 * arctan (1 / 5) - 4 * arctan (1 / 239)"
    using machin by simp
  with arctan_fifth_upper arctan_239_lower show ?thesis by simp
qed

section \<open>Numeric scenarios\<close>

text \<open>
  The pixel size and area for \<^verbatim>\<open>CDELT2 = 0.5\<close>, and for \<^verbatim>\<open>CDELT2 = 0.03\<close>, the value
  that gives the output recorded in the notebook (364162.94842861686 and
  132614653008.22346).
\<close>

lemma dx_half_bounds: "6069382.473 \<le> dx (1 / 2)" "dx (1 / 2) < 6069382.474"
  using pi_lower pi_upper by (simp_all add: dx_def)

lemma dx_sample_bounds: "364162.948 \<le> dx (3 / 100)" "dx (3 / 100) < 364162.949"
  using pi_lower pi_upper by (simp_all add: dx_def)

lemma area_between:
  assumes "0 \<le> lo" and "lo \<le> d" and "d < hi"
  shows "lo\<^sup>2 \<le> area d" and "area d < hi\<^sup>2"
proof -
  show "lo\<^sup>2 \<le> area d"
    unfolding area_def using assms(1,2) by (simp add: power_mono)
  have "0 \<le> d" using assms(1,2) by simp
  with assms(3) show "area d < hi\<^sup>2"
    unfolding area_def by (simp add: power_strict_mono)
qed

lemma area_half_bounds:
  "36837403000000 \<le> area (dx (1 / 2))" "area (dx (1 / 2)) < 36837404000000"
proof -
  have "(36837403000000::real) \<le> 6069382.473\<^sup>2"
    by (simp add: power2_eq_square)
  also have "\<dots> \<le> area (dx (1 / 2))"
    by (rule area_between(1) [OF _ dx_half_bounds]) simp
  finally show "36837403000000 \<le> area (dx (1 / 2))" .
  have "area (dx (1 / 2)) < 6069382.474\<^sup>2"
    by (rule area_between(2) [OF _ dx_half_bounds]) simp
  also have "\<dots> < (36837404000000::real)"
    by (simp add: power2_eq_square)
  finally show "area (dx (1 / 2)) < 36837404000000" .
qed

lemma area_sample_bounds:
  "132614650000 \<le> area (dx (3 / 100))" "area (dx (3 / 100)) < 132614660000"
proof -
  have "(132614650000::real) \<le> 364162.948\<^sup>2"
    by (simp add: power2_eq_square)
  also have "\<dots> \<le> area (dx (3 / 100))"
    by (rule area_between(1) [OF _ dx_sample_bounds]) simp
  finally show "132614650000 \<le> area (dx (3 / 100))" .
  have "area (dx (3 / 100)) < 364162.949\<^sup>2"
    by (rule area_between(2) [OF _ dx_sample_bounds]) simp
  also have "\<dots> < (132614660000::real)"
    by (simp add: power2_eq_square)
  finally show "area (dx (3 / 100)) < 132614660000" .
qed

section \<open>Rounding to the nearest double\<close>

subsection \<open>Rounding to an integer\<close>

lemma rhe_cases: "rhe y = \<lfloor>y\<rfloor> \<or> rhe y = \<lfloor>y\<rfloor> + 1"
  by (simp add: rhe_def Let_def)

lemma rhe_err: "\<bar>of_int (rhe y) - y\<bar> \<le> 1 / 2"
  unfolding rhe_def Let_def by (auto; linarith)

lemma rhe_of_int [simp]: "rhe (of_int k) = k"
  by (simp add: rhe_def)

lemma rhe_mono:
  assumes "x \<le> y"
  shows "rhe x \<le> rhe y"
proof (cases "\<lfloor>x\<rfloor> = \<lfloor>y\<rfloor>")
  case True
  with assms show ?thesis
    by (auto simp add: rhe_def Let_def)
next
  case False
  with assms have "\<lfloor>x\<rfloor> < \<lfloor>y\<rfloor>"
    by (simp add: floor_mono order.strict_iff_order)
  moreover have "rhe x \<le> \<lfloor>x\<rfloor> + 1"
    using rhe_cases [of x] by auto
  moreover have "\<lfloor>y\<rfloor> \<le> rhe y"
    using rhe_cases [of y] by auto
  ultimately show ?thesis by linarith
qed

lemma rhe_minus: "rhe (- y) = - rhe y"
proof (cases "y \<in> \<int>")
  case True
  then obtain k where "y = of_int k"
    by (auto elim: Ints_cases)
  then show ?thesis
    by (simp flip: of_int_minus)
next
  case False
  then have fr: "y \<noteq> of_int \<lfloor>y\<rfloor>"
    by (metis Ints_of_int)
  then have fl: "\<lfloor>- y\<rfloor> = - \<lfloor>y\<rfloor> - 1"
    by (simp add: floor_minus ceiling_altdef)
  show ?thesis
    using fr unfolding rhe_def Let_def fl
    by (auto; linarith?)
qed

subsection \<open>Exponent, spacing and the nearest multiple\<close>

lemma expo_eqI:
  assumes "2 powr of_int e \<le> \<bar>x\<bar>" and "\<bar>x\<bar> < 2 powr of_int (e + 1)" and "- 1022 \<le> e"
  shows "expo x = e"
proof -
  have "0 < \<bar>x\<bar>"
    using assms(1) by (smt (verit) powr_gt_zero)
  then have "\<lfloor>log 2 \<bar>x\<bar>\<rfloor> = e"
    using assms(1,2) by (simp add: floor_log_eq_powr_iff add.commute)
  with assms(3) show ?thesis
    by (simp add: expo_def)
qed

lemma expo_minus [simp]: "expo (- x) = expo x"
  by (simp add: expo_def)

lemma expo_upper:
  assumes "x \<noteq> 0"
  shows "\<bar>x\<bar> < 2 powr of_int (expo x + 1)"
proof -
  define k where "k = \<lfloor>log 2 \<bar>x\<bar>\<rfloor>"
  have "\<bar>x\<bar> < 2 powr of_int (k + 1)"
    using assms floor_log_eq_powr_iff [of "\<bar>x\<bar>" 2 k] by (simp add: k_def add.commute)
  also have "\<dots> \<le> 2 powr of_int (expo x + 1)"
    by (simp add: expo_def k_def)
  finally show ?thesis .
qed

lemma expo_lower:
  assumes "2 powr (- 1022) \<le> \<bar>x\<bar>"
  shows "2 powr of_int (expo x) \<le> \<bar>x\<bar>"
proof -
  define k where "k = \<lfloor>log 2 \<bar>x\<bar>\<rfloor>"
  have pos: "0 < \<bar>x\<bar>"
    using assms by (smt (verit) powr_gt_zero)
  then have k: "2 powr of_int k \<le> \<bar>x\<bar>"
    using floor_log_eq_powr_iff [of "\<bar>x\<bar>" 2 k] by (simp add: k_def)
  show ?thesis
  proof (cases "- 1022 \<le> k")
    case True
    then have "expo x = k" by (simp add: expo_def k_def)
    with k show ?thesis by simp
  next
    case False
    then have "expo x = - 1022" by (simp add: expo_def k_def)
    with assms show ?thesis by simp
  qed
qed

lemma expo_ge: "- 1022 \<le> expo x"
  by (simp add: expo_def)

lemma expo_subnormal:
  assumes "x \<noteq> 0" and "\<bar>x\<bar> < 2 powr (- 1022)"
  shows "expo x = - 1022"
proof -
  have "log 2 \<bar>x\<bar> < - 1022"
    using assms by (simp add: log_less_iff)
  then have "\<lfloor>log 2 \<bar>x\<bar>\<rfloor> < - 1022"
    by linarith
  then show ?thesis by (simp add: expo_def)
qed

lemma ulp_pos [simp]: "0 < ulp x"
  by (simp add: ulp_def)

lemma ulp_nonneg [simp]: "0 \<le> ulp x"
  by (simp add: ulp_def)

lemma ulp_neq0 [simp]: "ulp x \<noteq> 0"
  by (simp add: ulp_def)

lemma ulp_minus [simp]: "ulp (- x) = ulp x"
  by (simp add: ulp_def)

lemma nearest_minus: "nearest (- x) = - nearest x"
  by (simp add: nearest_def rhe_minus)

lemma nearest_zero [simp]: "nearest 0 = 0"
  by (simp add: nearest_def rhe_def)

lemma nearest_nonneg:
  assumes "0 \<le> x"
  shows "0 \<le> nearest x"
proof -
  have "0 \<le> x / ulp x"
    using assms by simp
  then have "rhe 0 \<le> rhe (x / ulp x)"
    by (rule rhe_mono)
  then have "0 \<le> rhe (x / ulp x)"
    by (simp add: rhe_def)
  then show ?thesis
    by (simp add: nearest_def)
qed

lemma nearest_err: "\<bar>nearest x - x\<bar> \<le> ulp x / 2"
proof -
  have "nearest x - x = (of_int (rhe (x / ulp x)) - x / ulp x) * ulp x"
    by (simp add: nearest_def algebra_simps)
  then have "\<bar>nearest x - x\<bar> = \<bar>of_int (rhe (x / ulp x)) - x / ulp x\<bar> * ulp x"
    by (simp add: abs_mult)
  also have "\<dots> \<le> (1 / 2) * ulp x"
    by (rule mult_right_mono [OF rhe_err]) simp
  finally show ?thesis by simp
qed

lemma nearest_rel_err:
  assumes "2 powr (- 1022) \<le> \<bar>x\<bar>"
  shows "\<bar>nearest x - x\<bar> \<le> \<bar>x\<bar> / 2 ^ 53"
proof -
  have "ulp x / 2 = 2 powr of_int (expo x) / 2 ^ 53"
    by (simp add: ulp_def powr_diff)
  also have "\<dots> \<le> \<bar>x\<bar> / 2 ^ 53"
    using expo_lower [OF assms] by (simp add: divide_right_mono)
  finally show ?thesis
    using nearest_err [of x] by linarith
qed

lemma rhe_zero [simp]: "rhe 0 = 0"
  by (simp add: rhe_def)

lemma two_powr_int_nat: "2 powr of_int (int n) = (2::real) ^ n"
  by (simp add: powr_realpow)

lemma expo_hi:
  assumes "2 ^ (52 + n) \<le> \<bar>x\<bar>" and "\<bar>x\<bar> < 2 ^ (53 + n)"
  shows "expo x = 52 + int n"
proof (rule expo_eqI)
  have "2 powr of_int (52 + int n) = (2::real) ^ (52 + n)"
    using two_powr_int_nat [of "52 + n"] by simp
  with assms(1) show "2 powr of_int (52 + int n) \<le> \<bar>x\<bar>" by simp
  have "2 powr of_int (52 + int n + 1) = (2::real) ^ (53 + n)"
    using two_powr_int_nat [of "53 + n"] by (simp add: add.commute)
  with assms(2) show "\<bar>x\<bar> < 2 powr of_int (52 + int n + 1)" by simp
  show "- 1022 \<le> 52 + int n" by simp
qed

lemma expo_lo:
  assumes "2 ^ 52 \<le> \<bar>x\<bar> * 2 ^ n" and "\<bar>x\<bar> * 2 ^ n < 2 ^ 53" and "n \<le> 1074"
  shows "expo x = 52 - int n"
proof (rule expo_eqI)
  have p: "2 powr of_int (52 - int n) = (2::real) ^ 52 / 2 ^ n"
    by (simp add: powr_diff powr_realpow)
  have "(2::real) ^ 52 / 2 ^ n \<le> \<bar>x\<bar>"
    using assms(1) by (simp add: pos_divide_le_eq)
  then show "2 powr of_int (52 - int n) \<le> \<bar>x\<bar>"
    unfolding p .
  have q: "2 powr of_int (52 - int n + 1) = (2::real) ^ 53 / 2 ^ n"
    by (simp add: powr_diff powr_add powr_realpow)
  have "\<bar>x\<bar> < (2::real) ^ 53 / 2 ^ n"
    using assms(2) by (simp add: pos_less_divide_eq)
  then show "\<bar>x\<bar> < 2 powr of_int (52 - int n + 1)"
    unfolding q .
  show "- 1022 \<le> 52 - int n"
    using assms(3) by simp
qed

lemma nearest_hi:
  assumes "2 ^ (52 + n) \<le> \<bar>x\<bar>" and "\<bar>x\<bar> < 2 ^ (53 + n)"
  shows "nearest x = of_int (rhe (x / 2 ^ n)) * 2 ^ n"
proof -
  have "ulp x = 2 powr of_int (int n)"
    by (simp add: ulp_def expo_hi [OF assms])
  then have "ulp x = 2 ^ n"
    by (simp only: two_powr_int_nat)
  then show ?thesis
    by (simp add: nearest_def)
qed

lemma nearest_scaled:
  assumes "ulp x = 1 / 2 ^ n"
  shows "nearest x = of_int (rhe (x * 2 ^ n)) / 2 ^ n"
  by (simp add: nearest_def assms)

lemma nearest_lo:
  assumes "2 ^ 52 \<le> \<bar>x\<bar> * 2 ^ n" and "\<bar>x\<bar> * 2 ^ n < 2 ^ 53" and "n \<le> 1074"
  shows "nearest x = of_int (rhe (x * 2 ^ n)) / 2 ^ n"
proof -
  have "ulp x = 2 powr of_int (- int n)"
    by (simp add: ulp_def expo_lo [OF assms])
  then have "ulp x = 1 / 2 ^ n"
    by (simp add: powr_minus powr_realpow divide_simps)
  then show ?thesis
    by (simp add: nearest_def)
qed

lemma nearest_subnormal:
  assumes "\<bar>x\<bar> * 2 ^ 1074 < 2 ^ 52"
  shows "nearest x = of_int (rhe (x * 2 ^ 1074)) / 2 ^ 1074"
proof (cases "x = 0")
  case True
  then show ?thesis by simp
next
  case False
  have "2 powr (- 1022) = (2::real) ^ 52 / 2 ^ 1074"
    by (simp add: powr_minus divide_simps flip: power_add)
  with assms have "\<bar>x\<bar> < 2 powr (- 1022)"
    by (simp add: field_simps)
  then have "expo x = - 1022"
    using False by (simp add: expo_subnormal)
  then have "ulp x = 2 powr (- 1074)"
    by (simp add: ulp_def)
  then have "ulp x = 1 / 2 ^ 1074"
    by (simp add: powr_minus divide_simps)
  then show ?thesis
    by (rule nearest_scaled)
qed

lemma rnd_finite:
  assumes "\<bar>x\<bar> < threshold"
  shows "rnd x = Fin (nearest x)"
  using assms by (simp add: rnd_def abs_less_iff not_le)

subsection \<open>Rounding is monotone, and exact on doubling\<close>

lemma ulp_expo: "ulp x = 2 powr of_int (expo x) / 2 ^ 52"
  by (simp add: ulp_def powr_diff)

lemma rhe_pow2 [simp]: "rhe (2 ^ n) = 2 ^ n"
proof -
  have "rhe (of_int (2 ^ n)) = 2 ^ n"
    by (rule rhe_of_int)
  then show ?thesis by simp
qed

lemma rhe_numeral [simp]: "rhe (numeral n) = numeral n"
  using rhe_of_int [of "numeral n"] by simp

lemma rhe_one [simp]: "rhe 1 = 1"
  using rhe_of_int [of 1] by simp

lemma expo_mono:
  assumes "0 < x" and "x \<le> y"
  shows "expo x \<le> expo y"
proof -
  have "log 2 \<bar>x\<bar> \<le> log 2 \<bar>y\<bar>"
    using assms by simp
  then have "\<lfloor>log 2 \<bar>x\<bar>\<rfloor> \<le> \<lfloor>log 2 \<bar>y\<bar>\<rfloor>"
    by (rule floor_mono)
  then show ?thesis
    by (simp add: expo_def)
qed

text \<open>A positive number rounds to at most the next power of two above it.\<close>

lemma nearest_le_next_pow:
  assumes "0 < x"
  shows "nearest x \<le> 2 powr of_int (expo x + 1)"
proof -
  define P :: real where "P = 2 powr of_int (expo x)"
  have P: "0 < P" by (simp add: P_def)
  have nxt: "2 powr of_int (expo x + 1) = 2 * P"
    by (simp add: P_def powr_add)
  have u: "ulp x = P / 2 ^ 52"
    by (simp add: ulp_expo P_def)
  have "x < 2 * P"
    using expo_upper [of x] assms nxt by simp
  then have "x / ulp x \<le> 2 ^ 53"
    using P by (simp add: u field_simps)
  then have "rhe (x / ulp x) \<le> rhe (2 ^ 53)"
    by (rule rhe_mono)
  then have "rhe (x / ulp x) \<le> 2 ^ 53"
    by (simp only: rhe_pow2)
  then have "(of_int (rhe (x / ulp x)) :: real) \<le> of_int (2 ^ 53)"
    by (simp only: of_int_le_iff)
  then have "of_int (rhe (x / ulp x)) * ulp x \<le> of_int (2 ^ 53) * ulp x"
    by (rule mult_right_mono) simp
  also have "of_int (2 ^ 53) * ulp x = 2 * P"
    by (simp add: u)
  finally show ?thesis
    unfolding nearest_def nxt .
qed

text \<open>A number that is at least the power of two of its exponent rounds to at least it.\<close>

lemma nearest_ge_pow:
  assumes "2 powr of_int (expo x) \<le> x"
  shows "2 powr of_int (expo x) \<le> nearest x"
proof -
  define P :: real where "P = 2 powr of_int (expo x)"
  have P: "0 < P" by (simp add: P_def)
  have u: "ulp x = P / 2 ^ 52"
    by (simp add: ulp_expo P_def)
  have "2 ^ 52 \<le> x / ulp x"
    using assms P by (simp add: u P_def [symmetric] field_simps)
  then have "rhe (2 ^ 52) \<le> rhe (x / ulp x)"
    by (rule rhe_mono)
  then have "2 ^ 52 \<le> rhe (x / ulp x)"
    by (simp only: rhe_pow2)
  then have "(of_int (2 ^ 52) :: real) \<le> of_int (rhe (x / ulp x))"
    by (simp only: of_int_le_iff)
  then have le: "of_int (2 ^ 52) * ulp x \<le> of_int (rhe (x / ulp x)) * ulp x"
    by (rule mult_right_mono) simp
  have "P = of_int (2 ^ 52) * ulp x"
    by (simp add: u)
  also note le
  finally show ?thesis
    unfolding nearest_def P_def .
qed

lemma nearest_mono_pos:
  assumes "0 < x" and "x \<le> y"
  shows "nearest x \<le> nearest y"
proof (cases "expo x = expo y")
  case True
  then have u: "ulp x = ulp y"
    by (simp add: ulp_def)
  have "x / ulp y \<le> y / ulp y"
    using assms(2) by (simp add: divide_right_mono)
  then have "rhe (x / ulp y) \<le> rhe (y / ulp y)"
    by (rule rhe_mono)
  then have "(of_int (rhe (x / ulp y)) :: real) \<le> of_int (rhe (y / ulp y))"
    by simp
  then have "of_int (rhe (x / ulp y)) * ulp y \<le> of_int (rhe (y / ulp y)) * ulp y"
    by (rule mult_right_mono) simp
  then show ?thesis
    by (simp add: nearest_def u)
next
  case False
  with expo_mono [OF assms] have lt: "expo x < expo y"
    by simp
  have ypos: "0 < y"
    using assms by simp
  have "- 1022 < expo y"
    using lt expo_ge [of x] by simp
  then have "\<lfloor>log 2 \<bar>y\<bar>\<rfloor> = expo y"
    by (simp add: expo_def max_def split: if_splits)
  then have "2 powr of_int (expo y) \<le> \<bar>y\<bar>"
    using ypos floor_log_eq_powr_iff [of "\<bar>y\<bar>" 2 "expo y"] by simp
  then have "2 powr of_int (expo y) \<le> y"
    using ypos by simp
  then have low: "2 powr of_int (expo y) \<le> nearest y"
    by (rule nearest_ge_pow)
  have "nearest x \<le> 2 powr of_int (expo x + 1)"
    using assms(1) by (rule nearest_le_next_pow)
  also have "\<dots> \<le> 2 powr of_int (expo y)"
    using lt by simp
  finally show ?thesis
    using low by simp
qed

lemma nearest_mono:
  assumes "x \<le> y"
  shows "nearest x \<le> nearest y"
proof -
  consider "0 < x" | "x \<le> 0" "0 \<le> y" | "y < 0"
    using assms by linarith
  then show ?thesis
  proof cases
    case 1
    then show ?thesis using assms by (rule nearest_mono_pos)
  next
    case 2
    have "nearest x = - nearest (- x)"
      using nearest_minus [of "- x"] by simp
    moreover have "0 \<le> nearest (- x)"
      using 2(1) by (simp add: nearest_nonneg)
    moreover have "0 \<le> nearest y"
      using 2(2) by (rule nearest_nonneg)
    ultimately show ?thesis by simp
  next
    case 3
    then have "nearest (- y) \<le> nearest (- x)"
      using assms by (intro nearest_mono_pos) simp_all
    then show ?thesis
      by (simp add: nearest_minus)
  qed
qed

lemma rnd_mono:
  assumes "x \<le> y"
  shows "fle (rnd x) (rnd y)"
  using assms nearest_mono [OF assms]
  by (auto simp add: rnd_def threshold_def)

lemma nearest_double:
  assumes "2 powr (- 1022) \<le> \<bar>x\<bar>"
  shows "nearest (2 * x) = 2 * nearest x"
proof -
  have x0: "x \<noteq> 0"
    using assms by (smt (verit) powr_gt_zero)
  have "expo (2 * x) = expo x + 1"
  proof (rule expo_eqI)
    show "2 powr of_int (expo x + 1) \<le> \<bar>2 * x\<bar>"
      using expo_lower [OF assms] by (simp add: powr_add)
    show "\<bar>2 * x\<bar> < 2 powr of_int (expo x + 1 + 1)"
      using expo_upper [OF x0] by (simp add: powr_add)
    show "- 1022 \<le> expo x + 1"
      using expo_ge [of x] by simp
  qed
  then have "ulp (2 * x) = 2 * ulp x"
    by (simp add: ulp_def powr_add powr_diff)
  then show ?thesis
    by (simp add: nearest_def)
qed

lemma nearest_pow2:
  assumes "- 1022 \<le> k"
  shows "nearest (2 powr of_int k) = 2 powr of_int k"
proof -
  have "expo (2 powr of_int k) = k"
    by (rule expo_eqI) (use assms in simp_all)
  then have u: "ulp (2 powr of_int k) = 2 powr of_int k / 2 ^ 52"
    by (simp add: ulp_expo)
  show ?thesis
    by (simp add: nearest_def u)
qed

subsection \<open>Evaluating an operation\<close>

text \<open>
  To round a concrete number, name its exponent and the integer its scaled value rounds
  to; the side conditions are then comparisons of numerals.
\<close>

lemma threshold_gt: "2 ^ 1023 < threshold"
  by (simp add: threshold_def)

lemma rnd_lo_eval:
  assumes "2 ^ 52 \<le> \<bar>x\<bar> * 2 ^ n" and "\<bar>x\<bar> * 2 ^ n < 2 ^ 53" and "n \<le> 1074"
    and "rhe (x * 2 ^ n) = m"
  shows "rnd x = Fin (of_int m / 2 ^ n)"
proof -
  have "1 \<le> (2::real) ^ n"
    by simp
  then have "\<bar>x\<bar> * 1 \<le> \<bar>x\<bar> * 2 ^ n"
    by (intro mult_left_mono) simp_all
  with assms(2) have "\<bar>x\<bar> < 2 ^ 53"
    by simp
  also have "\<dots> < threshold"
    by (simp add: threshold_def)
  finally have "rnd x = Fin (nearest x)"
    by (rule rnd_finite)
  then show ?thesis
    using nearest_lo [OF assms(1-3)] assms(4) by simp
qed

lemma rnd_hi_eval:
  assumes "2 ^ (52 + n) \<le> \<bar>x\<bar>" and "\<bar>x\<bar> < 2 ^ (53 + n)" and "\<bar>x\<bar> < threshold"
    and "rhe (x / 2 ^ n) = m"
  shows "rnd x = Fin (of_int m * 2 ^ n)"
  using rnd_finite [OF assms(3)] nearest_hi [OF assms(1,2)] assms(4) by simp

lemma rnd_sub_eval:
  assumes "\<bar>x\<bar> * 2 ^ 1074 < 2 ^ 52" and "rhe (x * 2 ^ 1074) = m"
  shows "rnd x = Fin (of_int m / 2 ^ 1074)"
proof -
  have "1 \<le> (2::real) ^ 1074"
    by (rule one_le_power) simp
  then have "\<bar>x\<bar> * 1 \<le> \<bar>x\<bar> * 2 ^ 1074"
    by (intro mult_left_mono) simp_all
  with assms(1) have "\<bar>x\<bar> < 2 ^ 52"
    by simp
  also have "\<dots> < threshold"
    by (simp add: threshold_def)
  finally have "rnd x = Fin (nearest x)"
    by (rule rnd_finite)
  then show ?thesis
    using nearest_subnormal [OF assms(1)] assms(2) by simp
qed

lemma rnd_zero [simp]: "rnd 0 = Fin 0"
  by (simp add: rnd_def threshold_def)

lemma rnd_not_NaN [simp]: "rnd x \<noteq> NaN"
  by (simp add: rnd_def)

lemma fle_PInf [simp]: "fle a PInf \<longleftrightarrow> a \<noteq> NaN"
  by (cases a) simp_all

lemma fle_NInf [simp]: "fle NInf b \<longleftrightarrow> b \<noteq> NaN"
  by (cases b) simp_all

lemma fmul_mono_right:
  assumes "fle a b" and "0 < y"
  shows "fle (fmul a (Fin y)) (fmul b (Fin y))"
proof (cases a)
  case (Fin x)
  show ?thesis
  proof (cases b)
    case (Fin x')
    with \<open>a = Fin x\<close> assms have "x * y \<le> x' * y"
      by simp
    then show ?thesis
      using \<open>a = Fin x\<close> \<open>b = Fin x'\<close> by (simp add: rnd_mono)
  qed (use Fin assms in simp_all)
next
  case PInf
  with assms show ?thesis by (cases b) simp_all
next
  case NInf
  with assms show ?thesis by (cases b) simp_all
next
  case NaN
  with assms show ?thesis by simp
qed

lemma fmul_mono_left:
  assumes "fle a b" and "0 < x"
  shows "fle (fmul (Fin x) a) (fmul (Fin x) b)"
proof (cases a)
  case (Fin y)
  show ?thesis
  proof (cases b)
    case (Fin y')
    with \<open>a = Fin y\<close> assms have "x * y \<le> x * y'"
      by simp
    then show ?thesis
      using \<open>a = Fin y\<close> \<open>b = Fin y'\<close> by (simp add: rnd_mono)
  qed (use Fin assms in simp_all)
next
  case PInf
  with assms show ?thesis by (cases b) simp_all
next
  case NInf
  with assms show ?thesis by (cases b) simp_all
next
  case NaN
  with assms show ?thesis by simp
qed

lemma fdiv_mono:
  assumes "fle a b" and "0 < y"
  shows "fle (fdiv a (Fin y)) (fdiv b (Fin y))"
proof (cases a)
  case (Fin x)
  show ?thesis
  proof (cases b)
    case (Fin x')
    with \<open>a = Fin x\<close> assms have "x / y \<le> x' / y"
      by (simp add: divide_right_mono)
    then show ?thesis
      using \<open>a = Fin x\<close> \<open>b = Fin x'\<close> assms(2) by (simp add: rnd_mono)
  qed (use Fin assms in simp_all)
next
  case PInf
  with assms show ?thesis by (cases b) simp_all
next
  case NInf
  with assms show ?thesis by (cases b) simp_all
next
  case NaN
  with assms show ?thesis by simp
qed

lemma two_pi_fp: "fmul (Fin 2) np_pi = Fin (884279719003555 / 2 ^ 47)"
  using rnd_lo_eval [of "2 * (884279719003555 / 2 ^ 48)" 50 7074237752028440]
  by (simp add: np_pi_def)

section \<open>Running the cells\<close>

lemma cell1_num:
  assumes "meta ''CDELT2'' = Some (HNum c)"
  shows "cell1 r meta k =
           Inr ([Stream (size_line (dx_fp r c))],
                k\<lparr>g_meta := Some meta, g_dx := Some (dx_fp r c)\<rparr>)"
  using assms
  by (simp add: cell1_def getitem_def float_times_fp_def dx_fp_def Let_def)

lemma run_all_num:
  assumes "meta ''CDELT2'' = Some (HNum c)"
  shows "run_all r meta k =
           Inr ([Stream (size_line (dx_fp r c)),
                 Result (percent_fp (dx_fp r c)),
                 Stream (area_line (area_fp (dx_fp r c)))],
                k\<lparr>g_meta := Some meta, g_dx := Some (dx_fp r c),
                  g_area := Some (area_fp (dx_fp r c))\<rparr>)"
  by (simp add: run_all_def cell1_num [of meta c r k, OF assms] cell2_def cell3_def Let_def)

lemma run_all_missing:
  "meta ''CDELT2'' = None \<Longrightarrow> run_all r meta k = Inl (KeyError ''CDELT2'')"
  by (simp add: run_all_def cell1_def getitem_def Let_def)

lemma run_all_str:
  "meta ''CDELT2'' = Some (HStr s) \<Longrightarrow> run_all r meta k = Inl TypeError"
  by (simp add: run_all_def cell1_def getitem_def float_times_fp_def Let_def)

lemma run_all_cases:
  assumes "run_all r meta k = Inr res"
  obtains c where "meta ''CDELT2'' = Some (HNum c)"
proof (cases "meta ''CDELT2''")
  case None
  with assms show ?thesis by (simp add: run_all_missing)
next
  case (Some v)
  show ?thesis
  proof (cases v)
    case (HNum c)
    with Some that show ?thesis by simp
  next
    case (HStr t)
    with Some assms show ?thesis by (simp add: run_all_str)
  qed
qed

lemma size_of_num:
  assumes "meta ''CDELT2'' = Some (HNum c)"
  shows "size_of (run_all r meta k) = Inr (Some (dx_fp r c))"
  by (simp add: size_of_def run_all_num [of meta c r k, OF assms])

lemma area_of_num:
  assumes "meta ''CDELT2'' = Some (HNum c)"
  shows "area_of (run_all r meta k) = Inr (Some (area_fp (dx_fp r c)))"
  by (simp add: area_of_def run_all_num [of meta c r k, OF assms])

lemma shown_num:
  assumes "meta ''CDELT2'' = Some (HNum c)"
  shows "shown (run_all r meta k) =
           Inr [Stream (size_line (dx_fp r c)),
                Result (percent_fp (dx_fp r c)),
                Stream (area_line (area_fp (dx_fp r c)))]"
  by (simp add: shown_def run_all_num [of meta c r k, OF assms])

section \<open>Ranges and accumulated rounding error\<close>

lemma between_pos: "between a b x \<Longrightarrow> 0 < x"
  unfolding between_def by (smt (verit) powr_gt_zero)

lemma between_weaken:
  assumes "between a b x" and "a' \<le> a" and "b \<le> b'"
  shows "between a' b' x"
proof -
  have "2 powr of_int a' \<le> (2::real) powr of_int a"
    using assms(2) by simp
  moreover have "2 powr of_int b \<le> (2::real) powr of_int b'"
    using assms(3) by simp
  ultimately show ?thesis
    using assms(1) unfolding between_def by linarith
qed

lemma between_mult:
  assumes "between a b x" and "between a' b' y"
  shows "between (a + a') (b + b') (x * y)"
proof -
  have x: "0 < x" and y: "0 < y"
    using assms by (auto dest: between_pos)
  have "2 powr of_int a * 2 powr of_int a' \<le> x * y"
    using assms x y unfolding between_def by (intro mult_mono) simp_all
  moreover have "x * y \<le> 2 powr of_int b * 2 powr of_int b'"
    using assms x y unfolding between_def by (intro mult_mono) simp_all
  ultimately show ?thesis
    by (simp add: between_def powr_add)
qed

lemma between_nearest:
  assumes "between a b x" and "- 1022 \<le> a"
  shows "between a b (nearest x)"
proof -
  have ab: "a \<le> b"
  proof -
    have "2 powr of_int a \<le> (2::real) powr of_int b"
      using assms(1) unfolding between_def by linarith
    then show ?thesis by simp
  qed
  have "nearest (2 powr of_int a) \<le> nearest x"
    using assms(1) unfolding between_def by (intro nearest_mono) simp
  moreover have "nearest x \<le> nearest (2 powr of_int b)"
    using assms(1) unfolding between_def by (intro nearest_mono) simp
  ultimately show ?thesis
    using assms(2) ab by (simp add: between_def nearest_pow2)
qed

lemma between_normal:
  assumes "between a b x" and "- 1022 \<le> a"
  shows "2 powr (- 1022) \<le> \<bar>x\<bar>"
proof -
  have "2 powr (- 1022) \<le> (2::real) powr of_int a"
    using assms(2) by simp
  also have "\<dots> \<le> x"
    using assms(1) by (simp add: between_def)
  finally show ?thesis by simp
qed

lemma between_finite:
  assumes "between a b x" and "b \<le> 1023"
  shows "\<bar>x\<bar> < threshold"
proof -
  have "x \<le> 2 powr of_int b"
    using assms(1) by (simp add: between_def)
  also have "\<dots> \<le> 2 powr of_int 1023"
    using assms(2) by (simp del: of_int_numeral)
  also have "\<dots> = 2 ^ 1023"
    by (simp add: powr_realpow [symmetric])
  also have "\<dots> < threshold"
    by (rule threshold_gt)
  finally show ?thesis
    using between_pos [OF assms(1)] by simp
qed

lemma between_rnd:
  assumes "between a b x" and "b \<le> 1023"
  shows "rnd x = Fin (nearest x)"
  by (rule rnd_finite [OF between_finite [OF assms]])

lemma between_two_pi: "between 2 3 (884279719003555 / 2 ^ 47)"
  by (simp add: between_def)

lemma between_div_360:
  assumes "between a b x"
  shows "between (a - 9) (b - 8) (x / 360)"
proof -
  have "between (- 9) (- 8) (1 / 360)"
    by (simp add: between_def powr_minus divide_simps)
  from between_mult [OF assms this] show ?thesis
    by simp
qed

lemma approx_refl: "0 \<le> A \<Longrightarrow> approx 0 A A"
  by (simp add: approx_def)

lemma approx_mult:
  assumes "approx j a A" and "approx k b B" and "0 \<le> A" and "0 \<le> B"
  shows "approx (j + k) (a * b) (A * B)"
proof -
  define e1 :: real where "e1 = (1 + 1 / 2 ^ 53) ^ j - 1"
  define e2 :: real where "e2 = (1 + 1 / 2 ^ 53) ^ k - 1"
  have e1: "0 \<le> e1" and e2: "0 \<le> e2"
    by (simp_all add: e1_def e2_def)
  have a: "\<bar>a - A\<bar> \<le> e1 * A" and b: "\<bar>b - B\<bar> \<le> e2 * B"
    using assms(1,2) by (simp_all add: approx_def e1_def e2_def)
  have "a * b - A * B = (a - A) * (b - B) + A * (b - B) + B * (a - A)"
    by (simp add: algebra_simps)
  then have "\<bar>a * b - A * B\<bar> = \<bar>(a - A) * (b - B) + A * (b - B) + B * (a - A)\<bar>"
    by (simp only:)
  also have "\<dots> \<le> \<bar>(a - A) * (b - B)\<bar> + \<bar>A * (b - B)\<bar> + \<bar>B * (a - A)\<bar>"
    by linarith
  also have "\<dots> = \<bar>a - A\<bar> * \<bar>b - B\<bar> + A * \<bar>b - B\<bar> + B * \<bar>a - A\<bar>"
    using assms(3,4) by (simp add: abs_mult)
  also have "\<dots> \<le> (e1 * A) * (e2 * B) + A * (e2 * B) + B * (e1 * A)"
    using a b assms(3,4) by (intro add_mono mult_mono mult_left_mono) (simp_all add: e1 e2)
  also have "\<dots> = ((1 + e1) * (1 + e2) - 1) * (A * B)"
    by (simp add: algebra_simps)
  also have "(1 + e1) * (1 + e2) = (1 + 1 / 2 ^ 53) ^ (j + k)"
    by (simp add: e1_def e2_def power_add)
  finally show ?thesis
    by (simp add: approx_def)
qed

lemma approx_nearest:
  assumes "approx k x X" and "0 \<le> X" and "2 powr (- 1022) \<le> \<bar>x\<bar>"
  shows "approx (Suc k) (nearest x) X"
proof -
  have x0: "x \<noteq> 0"
    using assms(3) by (smt (verit) powr_gt_zero)
  have "\<bar>nearest x / x - 1\<bar> = \<bar>nearest x - x\<bar> / \<bar>x\<bar>"
    using x0 by (simp add: abs_divide [symmetric] diff_divide_distrib)
  also have "\<dots> \<le> (\<bar>x\<bar> / 2 ^ 53) / \<bar>x\<bar>"
    using nearest_rel_err [OF assms(3)] by (intro divide_right_mono) simp_all
  also have "\<dots> = 1 / 2 ^ 53"
    using x0 by simp
  finally have "approx 1 (nearest x / x) 1"
    by (simp add: approx_def)
  from approx_mult [OF assms(1) this assms(2)] show ?thesis
    using x0 by simp
qed

lemma approx_div:
  assumes "approx k a A" and "0 < y"
  shows "approx k (a / y) (A / y)"
proof -
  have "\<bar>a / y - A / y\<bar> = \<bar>a - A\<bar> / y"
    using assms(2) by (simp add: diff_divide_distrib [symmetric])
  also have "\<dots> \<le> (((1 + 1 / 2 ^ 53) ^ k - 1) * A) / y"
    using assms by (intro divide_right_mono) (simp_all add: approx_def)
  finally show ?thesis
    by (simp add: approx_def)
qed

lemma fdiv_360: "fdiv (Fin x) (Fin 360) = rnd (x / 360)"
  by simp

lemma dx_fp_chain:
  fixes a b a' b' :: int
  assumes c: "between a b c" and r: "between a' b' r"
    and bounds: "- 505 \<le> a" "b \<le> 505" "- 505 \<le> a'" "b' \<le> 505"
  defines "c' \<equiv> nearest c"
    and "r' \<equiv> nearest r"
  defines "t \<equiv> nearest (884279719003555 / 2 ^ 47 * c')"
  defines "p \<equiv> nearest (t * r')"
  defines "d \<equiv> nearest (p / 360)"
  shows "dx_fp r c = Fin d"
    and "between a b c'"
    and "between a' b' r'"
    and "between (a + 2) (b + 3) (884279719003555 / 2 ^ 47 * c')"
    and "between (a + 2) (b + 3) t"
    and "between (a + a' + 2) (b + b' + 3) (t * r')"
    and "between (a + a' + 2) (b + b' + 3) p"
    and "between (a + a' - 7) (b + b' - 5) (p / 360)"
    and "between (a + a' - 7) (b + b' - 5) d"
proof -
  show c': "between a b c'"
    unfolding c'_def using between_nearest [OF c] bounds by simp
  show r': "between a' b' r'"
    unfolding r'_def using between_nearest [OF r] bounds by simp
  have "between (2 + a) (3 + b) (884279719003555 / 2 ^ 47 * c')"
    by (rule between_mult [OF between_two_pi c'])
  then show x1: "between (a + 2) (b + 3) (884279719003555 / 2 ^ 47 * c')"
    by (rule between_weaken) simp_all
  show t: "between (a + 2) (b + 3) t"
    unfolding t_def using between_nearest [OF x1] bounds by simp
  have "between (a + 2 + a') (b + 3 + b') (t * r')"
    by (rule between_mult [OF t r'])
  then show x2: "between (a + a' + 2) (b + b' + 3) (t * r')"
    by (rule between_weaken) simp_all
  show p: "between (a + a' + 2) (b + b' + 3) p"
    unfolding p_def using between_nearest [OF x2] bounds by simp
  have "between (a + a' + 2 - 9) (b + b' + 3 - 8) (p / 360)"
    by (rule between_div_360 [OF p])
  then show x3: "between (a + a' - 7) (b + b' - 5) (p / 360)"
    by (rule between_weaken) simp_all
  show "between (a + a' - 7) (b + b' - 5) d"
    unfolding d_def using between_nearest [OF x3] bounds by simp
  have s1: "rnd c = Fin c'"
    unfolding c'_def using between_rnd [OF c] bounds by simp
  have s2: "rnd r = Fin r'"
    unfolding r'_def using between_rnd [OF r] bounds by simp
  have s3: "rnd (884279719003555 / 2 ^ 47 * c') = Fin t"
    unfolding t_def using between_rnd [OF x1] bounds by simp
  have s4: "rnd (t * r') = Fin p"
    unfolding p_def using between_rnd [OF x2] bounds by simp
  have s5: "rnd (p / 360) = Fin d"
    unfolding d_def using between_rnd [OF x3] bounds by simp
  show "dx_fp r c = Fin d"
    by (simp only: dx_fp_def two_pi_fp s1 s2 fmul.simps(1) s3 s4 fdiv_360 s5)
qed

lemma between_nat:
  assumes "1 / 2 ^ n \<le> x" and "x \<le> 2 ^ n"
  shows "between (- int n) (int n) x"
proof -
  have a: "2 powr of_int (- int n) = 1 / (2::real) ^ n"
    by (simp add: powr_minus powr_realpow divide_simps)
  have b: "2 powr of_int (int n) = (2::real) ^ n"
    by (simp add: powr_realpow)
  show ?thesis
    unfolding between_def a b using assms by simp
qed

lemma between_double:
  assumes "between a b x"
  shows "between (a + 1) (b + 1) (2 * x)"
proof -
  have "between 1 1 2"
    by (simp add: between_def)
  from between_mult [OF this assms] show ?thesis
    by (simp add: add.commute)
qed

text \<open>
  In the range of the normal numbers the size computed for \<open>2 * c\<close> is twice the size
  computed for \<open>c\<close>.
\<close>

lemma dx_fp_double:
  assumes c: "between (- 500) 500 c" and r: "between (- 500) 500 r"
  shows "\<exists>d. dx_fp r c = Fin d \<and> dx_fp r (2 * c) = Fin (2 * d)"
proof -
  define c' where "c' = nearest c"
  define r' where "r' = nearest r"
  define t where "t = nearest (884279719003555 / 2 ^ 47 * c')"
  define p where "p = nearest (t * r')"
  define d where "d = nearest (p / 360)"
  note defs = d_def p_def t_def c'_def r'_def
  have one: "dx_fp r c = Fin d"
    unfolding defs by (rule dx_fp_chain(1) [OF c r]) simp_all
  have x1: "between (- 500 + 2) (500 + 3) (884279719003555 / 2 ^ 47 * c')"
    unfolding defs by (rule dx_fp_chain(4) [OF c r]) simp_all
  have x2: "between (- 500 + - 500 + 2) (500 + 500 + 3) (t * r')"
    unfolding defs by (rule dx_fp_chain(6) [OF c r]) simp_all
  have x3: "between (- 500 + - 500 - 7) (500 + 500 - 5) (p / 360)"
    unfolding defs by (rule dx_fp_chain(8) [OF c r]) simp_all
  have e1: "nearest (2 * c) = 2 * c'"
    unfolding c'_def by (rule nearest_double [OF between_normal [OF c]]) simp
  have "nearest (2 * (884279719003555 / 2 ^ 47 * c')) = 2 * t"
    unfolding t_def by (rule nearest_double [OF between_normal [OF x1]]) simp
  moreover have "884279719003555 / 2 ^ 47 * (2 * c') = 2 * (884279719003555 / 2 ^ 47 * c')"
    by (simp only: mult.left_commute)
  ultimately have e2: "nearest (884279719003555 / 2 ^ 47 * (2 * c')) = 2 * t"
    by (simp only:)
  have "nearest (2 * (t * r')) = 2 * p"
    unfolding p_def by (rule nearest_double [OF between_normal [OF x2]]) simp
  then have e3: "nearest (2 * t * r') = 2 * p"
    by (simp only: mult.assoc)
  have "nearest (2 * (p / 360)) = 2 * d"
    unfolding d_def by (rule nearest_double [OF between_normal [OF x3]]) simp
  then have e4: "nearest (2 * p / 360) = 2 * d"
    by (simp only: times_divide_eq_right)
  have c2: "between (- 500 + 1) (500 + 1) (2 * c)"
    by (rule between_double [OF c])
  have "dx_fp r (2 * c) =
          Fin (nearest (nearest (nearest (884279719003555 / 2 ^ 47 * nearest (2 * c)) * nearest r) / 360))"
    by (rule dx_fp_chain(1) [OF c2 r]) simp_all
  then have "dx_fp r (2 * c) = Fin (2 * d)"
    by (simp only: e1 e2 r'_def [symmetric] e3 e4)
  with one show ?thesis by blast
qed

lemma arctan_fifth_lower17: "1973955598498807582 / 10 ^ 19 \<le> arctan (1 / 5 :: real)"
  using arctan_partial_sums(1) [of "1 / 5" 6] by (simp add: eval_nat_numeral)

lemma arctan_fifth_upper17: "arctan (1 / 5 :: real) \<le> 1973955598498807584 / 10 ^ 19"
  using arctan_partial_sums(2) [of "1 / 5" 6] by (simp add: eval_nat_numeral)

lemma arctan_239_lower17: "41840760020747238644 / 10 ^ 22 \<le> arctan (1 / 239 :: real)"
  using arctan_partial_sums(1) [of "1 / 239" 2] by (simp add: eval_nat_numeral)

lemma arctan_239_upper17: "arctan (1 / 239 :: real) \<le> 41840760020747238646 / 10 ^ 22"
  using arctan_partial_sums(2) [of "1 / 239" 2] by (simp add: eval_nat_numeral)

lemma pi_lower17: "31415926535897932 / 10 ^ 16 \<le> pi"
proof -
  have "pi = 16 * arctan (1 / 5) - 4 * arctan (1 / 239)"
    using machin by simp
  with arctan_fifth_lower17 arctan_239_upper17 show ?thesis by simp
qed

lemma pi_upper17: "pi \<le> 31415926535897933 / 10 ^ 16"
proof -
  have "pi = 16 * arctan (1 / 5) - 4 * arctan (1 / 239)"
    using machin by simp
  with arctan_fifth_upper17 arctan_239_lower17 show ?thesis by simp
qed

text \<open>\<^verbatim>\<open>2*np.pi\<close> is \<open>2 * pi\<close> up to one rounding.\<close>

lemma approx_two_pi: "approx 1 (884279719003555 / 2 ^ 47) (2 * pi)"
  using pi_lower17 pi_upper17 by (simp add: approx_def abs_le_iff)

lemma dx_fp_approx:
  assumes c: "between (- 500) 500 c" and r: "between (- 500) 500 r"
  shows "\<exists>d. dx_fp r c = Fin d \<and> approx 6 d (2 * pi * c * r / 360)"
proof -
  define c' where "c' = nearest c"
  define r' where "r' = nearest r"
  define t where "t = nearest (884279719003555 / 2 ^ 47 * c')"
  define p where "p = nearest (t * r')"
  define d where "d = nearest (p / 360)"
  note defs = d_def p_def t_def c'_def r'_def
  have one: "dx_fp r c = Fin d"
    unfolding defs by (rule dx_fp_chain(1) [OF c r]) simp_all
  have x1: "between (- 500 + 2) (500 + 3) (884279719003555 / 2 ^ 47 * c')"
    unfolding defs by (rule dx_fp_chain(4) [OF c r]) simp_all
  have x2: "between (- 500 + - 500 + 2) (500 + 500 + 3) (t * r')"
    unfolding defs by (rule dx_fp_chain(6) [OF c r]) simp_all
  have x3: "between (- 500 + - 500 - 7) (500 + 500 - 5) (p / 360)"
    unfolding defs by (rule dx_fp_chain(8) [OF c r]) simp_all
  have cpos: "0 \<le> c" and rpos: "0 \<le> r"
    using between_pos [OF c] between_pos [OF r] by simp_all
  have a1: "approx (Suc 0) c' c"
    unfolding c'_def
    by (rule approx_nearest [OF approx_refl [OF cpos] cpos between_normal [OF c]]) simp
  have a2: "approx (1 + Suc 0) (884279719003555 / 2 ^ 47 * c') (2 * pi * c)"
    by (rule approx_mult [OF approx_two_pi a1 _ cpos]) simp
  have a3: "approx (Suc (1 + Suc 0)) t (2 * pi * c)"
    unfolding t_def
    by (rule approx_nearest [OF a2 _ between_normal [OF x1]]) (simp_all add: cpos)
  have a4: "approx (Suc 0) r' r"
    unfolding r'_def
    by (rule approx_nearest [OF approx_refl [OF rpos] rpos between_normal [OF r]]) simp
  have a5: "approx (Suc (1 + Suc 0) + Suc 0) (t * r') (2 * pi * c * r)"
    by (rule approx_mult [OF a3 a4 _ rpos]) (simp add: cpos)
  have a6: "approx (Suc (Suc (1 + Suc 0) + Suc 0)) p (2 * pi * c * r)"
    unfolding p_def
    by (rule approx_nearest [OF a5 _ between_normal [OF x2]]) (simp_all add: cpos rpos)
  have a7: "approx (Suc (Suc (1 + Suc 0) + Suc 0)) (p / 360) (2 * pi * c * r / 360)"
    by (rule approx_div [OF a6]) simp
  have a8: "approx (Suc (Suc (Suc (1 + Suc 0) + Suc 0))) d (2 * pi * c * r / 360)"
    unfolding d_def
    by (rule approx_nearest [OF a7 _ between_normal [OF x3]]) (simp_all add: cpos rpos)
  then have "approx 6 d (2 * pi * c * r / 360)"
    by (simp add: eval_nat_numeral)
  with one show ?thesis by blast
qed

lemma six_roundings: "(1 + 1 / 2 ^ 53) ^ 6 - 1 \<le> (1 / 10 ^ 15 :: real)"
proof -
  have "(1 + 1 / 2 ^ 53 :: real) = 9007199254740993 / 9007199254740992"
    by simp
  then show ?thesis
    by (simp add: power_divide)
qed

lemma area_fp_close:
  assumes "between (- 507) 495 d"
  shows "\<exists>a. area_fp (Fin d) = Fin a \<and> \<bar>a - d\<^sup>2\<bar> \<le> d\<^sup>2 / 10 ^ 9"
proof -
  have x: "between (- 507 + - 507) (495 + 495) (d * d)"
    by (rule between_mult [OF assms assms])
  have "rnd (d * d) = Fin (nearest (d * d))"
    by (rule between_rnd [OF x]) simp
  then have ar: "area_fp (Fin d) = Fin (nearest (d * d))"
    by (simp add: area_fp_def)
  have "\<bar>nearest (d * d) - d * d\<bar> \<le> \<bar>d * d\<bar> / 2 ^ 53"
    by (rule nearest_rel_err [OF between_normal [OF x]]) simp
  also have "\<dots> \<le> \<bar>d * d\<bar> / 10 ^ 9"
    by (intro divide_left_mono) simp_all
  finally have "\<bar>nearest (d * d) - d\<^sup>2\<bar> \<le> d\<^sup>2 / 10 ^ 9"
    by (simp add: power2_eq_square)
  with ar show ?thesis by blast
qed

lemma dx_fp_mono:
  assumes "1 / 2 ^ 1074 \<le> r" and "r < threshold" and "c1 \<le> c2"
  shows "fle (dx_fp r c1) (dx_fp r c2)"
proof -
  have rpos: "0 < r"
    using assms(1) by (smt (verit) divide_pos_pos zero_less_numeral zero_less_power)
  have rr: "rnd r = Fin (nearest r)"
    using assms(2) rpos by (intro rnd_finite) simp
  have "nearest (1 / 2 ^ 1074) = of_int (rhe (1 / 2 ^ 1074 * 2 ^ 1074)) / 2 ^ 1074"
    by (rule nearest_subnormal) simp
  also have "\<dots> = 1 / 2 ^ 1074"
    by simp
  finally have "1 / 2 ^ 1074 \<le> nearest r"
    using nearest_mono [OF assms(1)] by simp
  then have npos: "0 < nearest r"
    by (smt (verit) divide_pos_pos zero_less_numeral zero_less_power)
  have "fle (rnd c1) (rnd c2)"
    using assms(3) by (rule rnd_mono)
  then have "fle (fmul (Fin (884279719003555 / 2 ^ 47)) (rnd c1))
                 (fmul (Fin (884279719003555 / 2 ^ 47)) (rnd c2))"
    by (rule fmul_mono_left) simp
  then have "fle (fmul (fmul (Fin (884279719003555 / 2 ^ 47)) (rnd c1)) (Fin (nearest r)))
                 (fmul (fmul (Fin (884279719003555 / 2 ^ 47)) (rnd c2)) (Fin (nearest r)))"
    using npos by (rule fmul_mono_right)
  then have "fle (fdiv (fmul (fmul (Fin (884279719003555 / 2 ^ 47)) (rnd c1)) (Fin (nearest r))) (Fin 360))
                 (fdiv (fmul (fmul (Fin (884279719003555 / 2 ^ 47)) (rnd c2)) (Fin (nearest r))) (Fin 360))"
    by (rule fdiv_mono) simp
  then show ?thesis
    by (simp only: dx_fp_def two_pi_fp rr)
qed

lemma rhe_eqI:
  assumes "of_int k - 1 / 2 < y" and "y < of_int k + 1 / 2"
  shows "rhe y = k"
proof -
  have "\<bar>of_int (rhe y) - y\<bar> \<le> 1 / 2"
    by (rule rhe_err)
  with assms have "\<bar>(of_int (rhe y) :: real) - of_int k\<bar> < 1"
    by linarith
  then have "\<bar>rhe y - k\<bar> < 1"
    by (metis of_int_1 of_int_abs of_int_diff of_int_less_iff)
  then show ?thesis by simp
qed

text \<open>\<^verbatim>\<open>np.pi\<close> is \<open>pi\<close> rounded to the nearest double.\<close>

lemma np_pi_nearest: "rnd pi = np_pi"
proof -
  have "rhe (pi * 2 ^ 51) = 7074237752028440"
    using pi_lower17 pi_upper17 by (intro rhe_eqI) simp_all
  moreover have "2 ^ 52 \<le> \<bar>pi\<bar> * 2 ^ 51" and "\<bar>pi\<bar> * 2 ^ 51 < 2 ^ 53"
    using pi_lower17 pi_upper17 by simp_all
  ultimately have "rnd pi = Fin (of_int 7074237752028440 / 2 ^ 51)"
    by (intro rnd_lo_eval) simp_all
  then show ?thesis
    by (simp add: np_pi_def)
qed

section \<open>Concrete runs on doubles\<close>

text \<open>
  The operations of the run at \<^verbatim>\<open>CDELT2 = 0.03\<close>, which gives the output recorded in the
  notebook (364162.94842861686, 0.016629484286168575 and 132614653008.22346), at the
  next double above 0.03, at \<^verbatim>\<open>1e300\<close>, \<^verbatim>\<open>1e150\<close>, \<^verbatim>\<open>3e298\<close> and \<^verbatim>\<open>6e298\<close>, and at
  the two smallest positive doubles. A finite double is written as an integer times or
  over a power of two.
\<close>

lemma rnd_radius: "rnd 695500000 = Fin 695500000"
  using rnd_lo_eval [where x = 695500000 and n = 23 and m = 5834276864000000]
  by simp

lemma fdiv_1000: "fdiv (Fin x) (Fin 1000) = rnd (x / 1000)"
  by simp

lemma fdiv_100: "fdiv (Fin x) (Fin 100) = rnd (x / 100)"
  by simp

lemma sample_1: "rnd (3 / 100) = Fin (8646911284551352 / 2 ^ 58)"
  using rnd_lo_eval [where x = "3 / 100" and n = 58 and m = "8646911284551352"]
  by (simp add: rhe_def Let_def)

lemma sample_2: "fmul (Fin (884279719003555 / 2 ^ 47)) (Fin (8646911284551352 / 2 ^ 58)) = Fin (6791268241947302 / 2 ^ 55)"
  using rnd_lo_eval [where x = "884279719003555 / 2 ^ 47 * (8646911284551352 / 2 ^ 58)" and n = 55 and m = "6791268241947302"]
  by (simp add: rhe_def Let_def)

lemma sample_3: "fmul (Fin (6791268241947302 / 2 ^ 55)) (Fin 695500000) = Fin (8797882240776622 / 2 ^ 26)"
  using rnd_lo_eval [where x = "6791268241947302 / 2 ^ 55 * 695500000" and n = 26 and m = "8797882240776622"]
  by (simp add: rhe_def Let_def)

lemma sample_4: "fdiv (Fin (8797882240776622 / 2 ^ 26)) (Fin 360) = Fin (6256271815663376 / 2 ^ 34)"
  using rnd_lo_eval [where x = "8797882240776622 / 2 ^ 26 / 360" and n = 34 and m = "6256271815663376"]
  by (simp add: rhe_def Let_def)

lemma sample_5: "fmul (Fin (6256271815663376 / 2 ^ 34)) (Fin (6256271815663376 / 2 ^ 34)) = Fin (8691033899546933 / 2 ^ 16)"
  using rnd_lo_eval [where x = "6256271815663376 / 2 ^ 34 * (6256271815663376 / 2 ^ 34)" and n = 16 and m = "8691033899546933"]
  by (simp add: rhe_def Let_def)

lemma sample_6: "fdiv (Fin (6256271815663376 / 2 ^ 34)) (Fin 1000) = Fin (6406422339239297 / 2 ^ 44)"
  using rnd_lo_eval [where x = "6256271815663376 / 2 ^ 34 / 1000" and n = 44 and m = "6406422339239297"]
  by (simp add: rhe_def Let_def)

lemma sample_7: "fsub (Fin (6406422339239297 / 2 ^ 44)) (Fin 362.5) = Fin (7489253923455232 / 2 ^ 52)"
  using rnd_lo_eval [where x = "6406422339239297 / 2 ^ 44 - 362.5" and n = 52 and m = "7489253923455232"]
  by (simp add: rhe_def Let_def)

lemma sample_8: "fdiv (Fin (7489253923455232 / 2 ^ 52)) (Fin 100) = Fin (4793122511011348 / 2 ^ 58)"
  using rnd_lo_eval [where x = "7489253923455232 / 2 ^ 52 / 100" and n = 58 and m = "4793122511011348"]
  by (simp add: rhe_def Let_def)

lemma sample_dx: "dx_fp 695500000 (3 / 100) = Fin (6256271815663376 / 2 ^ 34)"
  by (simp only: dx_fp_def two_pi_fp rnd_radius sample_1 sample_2 sample_3 sample_4)

lemma sample_area: "area_fp (Fin (6256271815663376 / 2 ^ 34)) = Fin (8691033899546933 / 2 ^ 16)"
  by (simp only: area_fp_def sample_5)

lemma sample_percent: "percent_fp (Fin (6256271815663376 / 2 ^ 34)) = Fin (4793122511011348 / 2 ^ 58)"
  by (simp only: percent_fp_def sample_6 sample_7 sample_8)

text \<open>
  The decimal numbers recorded in the notebook read back as the doubles computed here.
\<close>

lemma recorded_1: "rnd (364162.94842861686) = Fin (6256271815663376 / 2 ^ 34)"
  using rnd_lo_eval [where x = "364162.94842861686" and n = 34 and m = "6256271815663376"]
  by (simp add: rhe_def Let_def)

lemma recorded_2: "rnd (132614653008.22346) = Fin (8691033899546933 / 2 ^ 16)"
  using rnd_lo_eval [where x = "132614653008.22346" and n = 16 and m = "8691033899546933"]
  by (simp add: rhe_def Let_def)

lemma recorded_3: "rnd (0.016629484286168575) = Fin (4793122511011348 / 2 ^ 58)"
  using rnd_lo_eval [where x = "0.016629484286168575" and n = 58 and m = "4793122511011348"]
  by (simp add: rhe_def Let_def)

lemma adjacent_1: "rnd (30000000000000002 / 10 ^ 18) = Fin (8646911284551353 / 2 ^ 58)"
  using rnd_lo_eval [where x = "30000000000000002 / 10 ^ 18" and n = 58 and m = "8646911284551353"]
  by (simp add: rhe_def Let_def)

lemma adjacent_2: "fmul (Fin (884279719003555 / 2 ^ 47)) (Fin (8646911284551353 / 2 ^ 58)) = Fin (6791268241947303 / 2 ^ 55)"
  using rnd_lo_eval [where x = "884279719003555 / 2 ^ 47 * (8646911284551353 / 2 ^ 58)" and n = 55 and m = "6791268241947303"]
  by (simp add: rhe_def Let_def)

lemma adjacent_3: "fmul (Fin (6791268241947303 / 2 ^ 55)) (Fin 695500000) = Fin (8797882240776623 / 2 ^ 26)"
  using rnd_lo_eval [where x = "6791268241947303 / 2 ^ 55 * 695500000" and n = 26 and m = "8797882240776623"]
  by (simp add: rhe_def Let_def)

lemma adjacent_4: "fdiv (Fin (8797882240776623 / 2 ^ 26)) (Fin 360) = Fin (6256271815663376 / 2 ^ 34)"
  using rnd_lo_eval [where x = "8797882240776623 / 2 ^ 26 / 360" and n = 34 and m = "6256271815663376"]
  by (simp add: rhe_def Let_def)

lemma adjacent_dx: "dx_fp 695500000 (30000000000000002 / 10 ^ 18) = Fin (6256271815663376 / 2 ^ 34)"
  by (simp only: dx_fp_def two_pi_fp rnd_radius adjacent_1 adjacent_2 adjacent_3 adjacent_4)

lemma huge_1: "rnd (10 ^ 300) = Fin (6724873095247260 * 2 ^ 944)"
  using rnd_hi_eval [where x = "10 ^ 300" and n = 944 and m = "6724873095247260"]
  by (simp add: rhe_def Let_def threshold_def)

lemma huge_2: "fmul (Fin (884279719003555 / 2 ^ 47)) (Fin (6724873095247260 * 2 ^ 944)) = Fin (5281702978088111 * 2 ^ 947)"
  using rnd_hi_eval [where x = "884279719003555 / 2 ^ 47 * (6724873095247260 * 2 ^ 944)" and n = 947 and m = "5281702978088111"]
  by (simp add: rhe_def Let_def threshold_def)

lemma huge_3: "fmul (Fin (5281702978088111 * 2 ^ 947)) (Fin 695500000) = PInf"
  by (simp add: rnd_def threshold_def)

lemma huge_dx: "dx_fp 695500000 (10 ^ 300) = PInf"
  by (simp only: dx_fp_def two_pi_fp rnd_radius huge_1 huge_2 huge_3 fdiv.simps) simp

lemma large_1: "rnd (10 ^ 150) = Fin (5503284107318959 * 2 ^ 446)"
  using rnd_hi_eval [where x = "10 ^ 150" and n = 446 and m = "5503284107318959"]
  by (simp add: rhe_def Let_def threshold_def)

lemma large_2: "fmul (Fin (884279719003555 / 2 ^ 47)) (Fin (5503284107318959 * 2 ^ 446)) = Fin (8644538461085352 * 2 ^ 448)"
  using rnd_hi_eval [where x = "884279719003555 / 2 ^ 47 * (5503284107318959 * 2 ^ 446)" and n = 448 and m = "8644538461085352"]
  by (simp add: rhe_def Let_def threshold_def)

lemma large_3: "fmul (Fin (8644538461085352 * 2 ^ 448)) (Fin 695500000) = Fin (5599368828986643 * 2 ^ 478)"
  using rnd_hi_eval [where x = "8644538461085352 * 2 ^ 448 * 695500000" and n = 478 and m = "5599368828986643"]
  by (simp add: rhe_def Let_def threshold_def)

lemma large_4: "fdiv (Fin (5599368828986643 * 2 ^ 478)) (Fin 360) = Fin (7963546779003226 * 2 ^ 469)"
  using rnd_hi_eval [where x = "5599368828986643 * 2 ^ 478 / 360" and n = 469 and m = "7963546779003226"]
  by (simp add: rhe_def Let_def threshold_def)

lemma large_5: "fmul (Fin (7963546779003226 * 2 ^ 469)) (Fin (7963546779003226 * 2 ^ 469)) = PInf"
  by (simp add: rnd_def threshold_def)

lemma large_dx: "dx_fp 695500000 (10 ^ 150) = Fin (7963546779003226 * 2 ^ 469)"
  by (simp only: dx_fp_def two_pi_fp rnd_radius large_1 large_2 large_3 large_4)

lemma large_area: "area_fp (Fin (7963546779003226 * 2 ^ 469)) = PInf"
  by (simp only: area_fp_def large_5)

lemma tiny_1: "rnd (1 / 2 ^ 1074) = Fin (1 / 2 ^ 1074)"
  using rnd_sub_eval [where x = "1 / 2 ^ 1074" and m = "1"]
  by (simp add: rhe_def Let_def)

lemma tiny_2: "fmul (Fin (884279719003555 / 2 ^ 47)) (Fin (1 / 2 ^ 1074)) = Fin (6 / 2 ^ 1074)"
  using rnd_sub_eval [where x = "884279719003555 / 2 ^ 47 * (1 / 2 ^ 1074)" and m = "6"]
  by (simp add: rhe_def Let_def)

lemma tiny_3: "fmul (Fin (6 / 2 ^ 1074)) (Fin 695500000) = Fin (4173000000 / 2 ^ 1074)"
  using rnd_sub_eval [where x = "6 / 2 ^ 1074 * 695500000" and m = "4173000000"]
  by (simp add: rhe_def Let_def)

lemma tiny_4: "fdiv (Fin (4173000000 / 2 ^ 1074)) (Fin 360) = Fin (11591667 / 2 ^ 1074)"
  using rnd_sub_eval [where x = "4173000000 / 2 ^ 1074 / 360" and m = "11591667"]
  by (simp add: rhe_def Let_def)

lemma tiny_dx: "dx_fp 695500000 (1 / 2 ^ 1074) = Fin (11591667 / 2 ^ 1074)"
  by (simp only: dx_fp_def two_pi_fp rnd_radius tiny_1 tiny_2 tiny_3 tiny_4)

lemma tiny2_1: "rnd (2 * (1 / 2 ^ 1074)) = Fin (2 / 2 ^ 1074)"
  using rnd_sub_eval [where x = "2 * (1 / 2 ^ 1074)" and m = "2"]
  by (simp add: rhe_def Let_def)

lemma tiny2_2: "fmul (Fin (884279719003555 / 2 ^ 47)) (Fin (2 / 2 ^ 1074)) = Fin (13 / 2 ^ 1074)"
  using rnd_sub_eval [where x = "884279719003555 / 2 ^ 47 * (2 / 2 ^ 1074)" and m = "13"]
  by (simp add: rhe_def Let_def)

lemma tiny2_3: "fmul (Fin (13 / 2 ^ 1074)) (Fin 695500000) = Fin (9041500000 / 2 ^ 1074)"
  using rnd_sub_eval [where x = "13 / 2 ^ 1074 * 695500000" and m = "9041500000"]
  by (simp add: rhe_def Let_def)

lemma tiny2_4: "fdiv (Fin (9041500000 / 2 ^ 1074)) (Fin 360) = Fin (25115278 / 2 ^ 1074)"
  using rnd_sub_eval [where x = "9041500000 / 2 ^ 1074 / 360" and m = "25115278"]
  by (simp add: rhe_def Let_def)

lemma tiny2_dx: "dx_fp 695500000 (2 * (1 / 2 ^ 1074)) = Fin (25115278 / 2 ^ 1074)"
  by (simp only: dx_fp_def two_pi_fp rnd_radius tiny2_1 tiny2_2 tiny2_3 tiny2_4)

lemma big_1: "rnd (3 * 10 ^ 298) = Fin (6455878171437369 * 2 ^ 939)"
  using rnd_hi_eval [where x = "3 * 10 ^ 298" and n = 939 and m = "6455878171437369"]
  by (simp add: rhe_def Let_def threshold_def)

lemma big_2: "fmul (Fin (884279719003555 / 2 ^ 47)) (Fin (6455878171437369 * 2 ^ 939)) = Fin (5070434858964586 * 2 ^ 942)"
  using rnd_hi_eval [where x = "884279719003555 / 2 ^ 47 * (6455878171437369 * 2 ^ 939)" and n = 942 and m = "5070434858964586"]
  by (simp add: rhe_def Let_def threshold_def)

lemma big_3: "fmul (Fin (5070434858964586 * 2 ^ 942)) (Fin 695500000) = Fin (6568594732153918 * 2 ^ 971)"
  using rnd_hi_eval [where x = "5070434858964586 * 2 ^ 942 * 695500000" and n = 971 and m = "6568594732153918"]
  by (simp add: rhe_def Let_def threshold_def)

lemma big_4: "fdiv (Fin (6568594732153918 * 2 ^ 971)) (Fin 360) = Fin (4671000698420564 * 2 ^ 963)"
  using rnd_hi_eval [where x = "6568594732153918 * 2 ^ 971 / 360" and n = 963 and m = "4671000698420564"]
  by (simp add: rhe_def Let_def threshold_def)

lemma big_dx: "dx_fp 695500000 (3 * 10 ^ 298) = Fin (4671000698420564 * 2 ^ 963)"
  by (simp only: dx_fp_def two_pi_fp rnd_radius big_1 big_2 big_3 big_4)

lemma big2_1: "rnd (2 * (3 * 10 ^ 298)) = Fin (6455878171437369 * 2 ^ 940)"
  using rnd_hi_eval [where x = "2 * (3 * 10 ^ 298)" and n = 940 and m = "6455878171437369"]
  by (simp add: rhe_def Let_def threshold_def)

lemma big2_2: "fmul (Fin (884279719003555 / 2 ^ 47)) (Fin (6455878171437369 * 2 ^ 940)) = Fin (5070434858964586 * 2 ^ 943)"
  using rnd_hi_eval [where x = "884279719003555 / 2 ^ 47 * (6455878171437369 * 2 ^ 940)" and n = 943 and m = "5070434858964586"]
  by (simp add: rhe_def Let_def threshold_def)

lemma big2_3: "fmul (Fin (5070434858964586 * 2 ^ 943)) (Fin 695500000) = PInf"
  by (simp add: rnd_def threshold_def)

lemma big2_dx: "dx_fp 695500000 (2 * (3 * 10 ^ 298)) = PInf"
  by (simp only: dx_fp_def two_pi_fp rnd_radius big2_1 big2_2 big2_3 fdiv.simps) simp

lemma sample_run:
  "run_all 695500000 [''CDELT2'' \<mapsto> HNum (3 / 100)] fresh =
     Inr ([Stream (size_line (Fin (6256271815663376 / 2 ^ 34))),
           Result (Fin (4793122511011348 / 2 ^ 58)),
           Stream (area_line (Fin (8691033899546933 / 2 ^ 16)))],
          \<lparr>g_meta = Some [''CDELT2'' \<mapsto> HNum (3 / 100)],
             g_dx = Some (Fin (6256271815663376 / 2 ^ 34)),
             g_area = Some (Fin (8691033899546933 / 2 ^ 16))\<rparr>)"
proof -
  have "run_all 695500000 [''CDELT2'' \<mapsto> HNum (3 / 100)] fresh =
     Inr ([Stream (size_line (dx_fp 695500000 (3 / 100))),
           Result (percent_fp (dx_fp 695500000 (3 / 100))),
           Stream (area_line (area_fp (dx_fp 695500000 (3 / 100))))],
          fresh\<lparr>g_meta := Some [''CDELT2'' \<mapsto> HNum (3 / 100)],
            g_dx := Some (dx_fp 695500000 (3 / 100)),
            g_area := Some (area_fp (dx_fp 695500000 (3 / 100)))\<rparr>)"
    by (rule run_all_num) (rule fun_upd_same)
  then show ?thesis
    unfolding sample_dx sample_area sample_percent by (simp add: fresh_def)
qed

section \<open>The claims\<close>

text \<open>
  C1, as amended. For every \<open>cdelt_arcsec\<close> and \<open>solar_radius_m\<close> between \<open>2^-500\<close> and
  \<open>2^500\<close> the run succeeds and the pixel size it binds to \<^verbatim>\<open>dx\<close> is a finite double
  within a relative error of \<open>1e-15\<close> of \<open>(2 pi cdelt_arcsec / 360) * solar_radius_m\<close>.
\<close>

theorem size_close_to_formula:
  assumes "1 / 2 ^ 500 \<le> c" and "c \<le> 2 ^ 500"
    and "1 / 2 ^ 500 \<le> r" and "r \<le> 2 ^ 500"
    and "meta ''CDELT2'' = Some (HNum c)"
  shows "\<exists>d. size_of (run_all r meta k) = Inr (Some (Fin d))
           \<and> \<bar>d - (2 * pi * c / 360) * r\<bar> \<le> ((2 * pi * c / 360) * r) / 10 ^ 15"
proof -
  have c: "between (- 500) 500 c"
    using between_nat [OF assms(1,2)] by simp
  have r: "between (- 500) 500 r"
    using between_nat [OF assms(3,4)] by simp
  obtain d where d: "dx_fp r c = Fin d" and ap: "approx 6 d (2 * pi * c * r / 360)"
    using dx_fp_approx [OF c r] by blast
  define X where "X = 2 * pi * c * r / 360"
  have X: "0 \<le> X"
    using between_pos [OF c] between_pos [OF r] by (simp add: X_def)
  have "\<bar>d - X\<bar> \<le> ((1 + 1 / 2 ^ 53) ^ 6 - 1) * X"
    using ap by (simp only: approx_def X_def)
  also have "\<dots> \<le> (1 / 10 ^ 15) * X"
    by (rule mult_right_mono [OF six_roundings X])
  finally have "\<bar>d - X\<bar> \<le> X / 10 ^ 15"
    by simp
  moreover have "(2 * pi * c / 360) * r = X"
    by (simp add: X_def)
  ultimately show ?thesis
    using d assms(5) by (simp add: size_of_num)
qed

theorem size_close_to_formula_witness:
  "1 / 2 ^ 500 \<le> (3 / 100 :: real) \<and> (3 / 100 :: real) \<le> 2 ^ 500
   \<and> 1 / 2 ^ 500 \<le> (695500000 :: real) \<and> (695500000 :: real) \<le> 2 ^ 500
   \<and> [''CDELT2'' \<mapsto> HNum (3 / 100)] ''CDELT2'' = Some (HNum (3 / 100))
   \<and> (\<exists>d. size_of (run_all 695500000 [''CDELT2'' \<mapsto> HNum (3 / 100)] fresh) = Inr (Some (Fin d))
          \<and> \<bar>d - (2 * pi * (3 / 100) / 360) * 695500000\<bar>
               \<le> ((2 * pi * (3 / 100) / 360) * 695500000) / 10 ^ 15)"
  using size_close_to_formula [of "3 / 100" 695500000 "[''CDELT2'' \<mapsto> HNum (3 / 100)]" fresh]
  by simp

text \<open>
  At \<^verbatim>\<open>CDELT2 = 0.03\<close> and the radius 6.955e8 the computed size is strictly below the
  closed form, and at \<^verbatim>\<open>CDELT2 = 1e300\<close> it is \<^verbatim>\<open>inf\<close>.
\<close>

theorem closed_form_counterexample:
  "size_of (run_all 695500000 [''CDELT2'' \<mapsto> HNum (3 / 100)] fresh) = Inr (Some (Fin (6256271815663376 / 2 ^ 34)))
   \<and> (6256271815663376 / 2 ^ 34 :: real) < (2 * pi * (3 / 100) / 360) * 695500000
   \<and> size_of (run_all 695500000 [''CDELT2'' \<mapsto> HNum (10 ^ 300)] fresh) = Inr (Some PInf)"
proof -
  have s1: "size_of (run_all 695500000 [''CDELT2'' \<mapsto> HNum (3 / 100)] fresh) = Inr (Some (Fin (6256271815663376 / 2 ^ 34)))"
    unfolding sample_dx [symmetric] by (rule size_of_num) (rule fun_upd_same)
  have s2: "size_of (run_all 695500000 [''CDELT2'' \<mapsto> HNum (10 ^ 300)] fresh) = Inr (Some (PInf))"
    unfolding huge_dx [symmetric] by (rule size_of_num) (rule fun_upd_same)
  have "(6256271815663376 / 2 ^ 34 :: real) < (2 * pi * (3 / 100) / 360) * 695500000"
    using pi_lower17 by simp
  then show ?thesis
    unfolding s1 s2 by simp
qed

text \<open>
  C2, as amended. For every \<open>cdelt_arcsec\<close> and \<open>solar_radius_m\<close> between \<open>2^-250\<close> and
  \<open>2^250\<close> the pixel area is a finite double within a relative error of \<open>1e-9\<close> of the
  square of the computed pixel size.
\<close>

theorem area_close_to_square:
  assumes "1 / 2 ^ 250 \<le> c" and "c \<le> 2 ^ 250"
    and "1 / 2 ^ 250 \<le> r" and "r \<le> 2 ^ 250"
    and "meta ''CDELT2'' = Some (HNum c)"
  shows "\<exists>d a. size_of (run_all r meta k) = Inr (Some (Fin d))
             \<and> area_of (run_all r meta k) = Inr (Some (Fin a))
             \<and> \<bar>a - d\<^sup>2\<bar> \<le> d\<^sup>2 / 10 ^ 9"
proof -
  have c: "between (- 250) 250 c"
    using between_nat [OF assms(1,2)] by simp
  have r: "between (- 250) 250 r"
    using between_nat [OF assms(3,4)] by simp
  define d where "d = nearest (nearest (nearest (884279719003555 / 2 ^ 47 * nearest c) * nearest r) / 360)"
  have one: "dx_fp r c = Fin d"
    unfolding d_def by (rule dx_fp_chain(1) [OF c r]) simp_all
  have "between (- 250 + - 250 - 7) (250 + 250 - 5) d"
    unfolding d_def by (rule dx_fp_chain(9) [OF c r]) simp_all
  then have "between (- 507) 495 d"
    by simp
  then obtain a where "area_fp (Fin d) = Fin a" and "\<bar>a - d\<^sup>2\<bar> \<le> d\<^sup>2 / 10 ^ 9"
    using area_fp_close by blast
  then show ?thesis
    using one assms(5) by (simp add: size_of_num area_of_num)
qed

theorem area_close_to_square_witness:
  "1 / 2 ^ 250 \<le> (3 / 100 :: real) \<and> (3 / 100 :: real) \<le> 2 ^ 250
   \<and> 1 / 2 ^ 250 \<le> (695500000 :: real) \<and> (695500000 :: real) \<le> 2 ^ 250
   \<and> [''CDELT2'' \<mapsto> HNum (3 / 100)] ''CDELT2'' = Some (HNum (3 / 100))
   \<and> (\<exists>d a. size_of (run_all 695500000 [''CDELT2'' \<mapsto> HNum (3 / 100)] fresh) = Inr (Some (Fin d))
          \<and> area_of (run_all 695500000 [''CDELT2'' \<mapsto> HNum (3 / 100)] fresh) = Inr (Some (Fin a))
          \<and> \<bar>a - d\<^sup>2\<bar> \<le> d\<^sup>2 / 10 ^ 9)"
  using area_close_to_square [of "3 / 100" 695500000 "[''CDELT2'' \<mapsto> HNum (3 / 100)]" fresh]
  by simp

text \<open>
  At \<^verbatim>\<open>CDELT2 = 1e150\<close> and the radius 6.955e8 the pixel size is finite and the pixel
  area is \<^verbatim>\<open>inf\<close>.
\<close>

theorem area_overflow_counterexample:
  "size_of (run_all 695500000 [''CDELT2'' \<mapsto> HNum (10 ^ 150)] fresh) = Inr (Some (Fin (7963546779003226 * 2 ^ 469)))
   \<and> area_of (run_all 695500000 [''CDELT2'' \<mapsto> HNum (10 ^ 150)] fresh) = Inr (Some PInf)
   \<and> area_of (run_all 695500000 [''CDELT2'' \<mapsto> HNum (10 ^ 150)] fresh)
       \<noteq> Inr (Some (Fin ((7963546779003226 * 2 ^ 469)\<^sup>2)))"
proof -
  have s: "size_of (run_all 695500000 [''CDELT2'' \<mapsto> HNum (10 ^ 150)] fresh) = Inr (Some (Fin (7963546779003226 * 2 ^ 469)))"
    unfolding large_dx [symmetric] by (rule size_of_num) (rule fun_upd_same)
  have a: "area_of (run_all 695500000 [''CDELT2'' \<mapsto> HNum (10 ^ 150)] fresh) = Inr (Some (PInf))"
    unfolding large_area [symmetric] large_dx [symmetric] by (rule area_of_num) (rule fun_upd_same)
  show ?thesis
    unfolding s a by simp
qed




text \<open>
  C4, as amended. For \<open>cdelt_arcsec = 0.5\<close> and the radius 6.955e8 the run yields a pixel
  size of 6069382.473... meters and a pixel area of 3.6837403...e13 square meters. The
  values 364162.948... meters and 1.3261465...e11 square meters are those of
  \<open>cdelt_arcsec = 0.03\<close>.
\<close>

theorem scenario_values:
  "(\<exists>s. notebook [''CDELT2'' \<mapsto> HNum (1 / 2)] = Inr s
        \<and> 6069382.473 \<le> pixel_size_m s \<and> pixel_size_m s < 6069382.474
        \<and> 36837403000000 \<le> pixel_area_m2 s \<and> pixel_area_m2 s < 36837404000000)
   \<and> (\<exists>s. notebook [''CDELT2'' \<mapsto> HNum (3 / 100)] = Inr s
        \<and> 364162.948 \<le> pixel_size_m s \<and> pixel_size_m s < 364162.949
        \<and> 132614650000 \<le> pixel_area_m2 s \<and> pixel_area_m2 s < 132614660000)"
proof -
  have run_half: "notebook [''CDELT2'' \<mapsto> HNum (1 / 2)] =
     Inr \<lparr>stdout = [size_line (dx (1 / 2)), area_line (area (dx (1 / 2)))],
          pixel_size_m = dx (1 / 2), pixel_area_m2 = area (dx (1 / 2))\<rparr>"
    by (simp add: notebook_num)
  have run_sample: "notebook [''CDELT2'' \<mapsto> HNum (3 / 100)] =
     Inr \<lparr>stdout = [size_line (dx (3 / 100)), area_line (area (dx (3 / 100)))],
          pixel_size_m = dx (3 / 100), pixel_area_m2 = area (dx (3 / 100))\<rparr>"
    by (simp add: notebook_num)
  show ?thesis
    unfolding run_half run_sample
    using dx_half_bounds area_half_bounds dx_sample_bounds area_sample_bounds
    by simp
qed

text \<open>
  At \<^verbatim>\<open>CDELT2 = 0.5\<close> the pixel size is more than 5000 km away from 364162.948 m, and
  the area more than 3.6e13 away from 1.3261465e11.
\<close>

theorem half_arcsec_scenario_counterexample:
  "notebook [''CDELT2'' \<mapsto> HNum (1 / 2)] =
     Inr \<lparr>stdout = [size_line (dx (1 / 2)), area_line (area (dx (1 / 2)))],
          pixel_size_m = dx (1 / 2), pixel_area_m2 = area (dx (1 / 2))\<rparr>
   \<and> \<not> \<bar>dx (1 / 2) - 364162.948\<bar> \<le> 5000000
   \<and> \<not> \<bar>area (dx (1 / 2)) - 132614650000\<bar> \<le> 36000000000000"
proof -
  have "5000000 < dx (1 / 2) - 364162.948"
    using dx_half_bounds(1) by simp
  moreover have "36000000000000 < area (dx (1 / 2)) - 132614650000"
    using area_half_bounds(1) by simp
  ultimately show ?thesis
    by (simp add: notebook_num)
qed

text \<open>
  C5, as amended. For every \<open>c\<close> and \<open>r\<close> between \<open>2^-500\<close> and \<open>2^500\<close>, the run on
  \<open>2 * c\<close> yields exactly twice the pixel size of the run on \<open>c\<close>; in particular the size
  for \<open>cdelt_arcsec = 1.0\<close> is exactly twice that for \<open>cdelt_arcsec = 0.5\<close> at the radius
  6.955e8.
\<close>

theorem doubling_in_range:
  assumes "1 / 2 ^ 500 \<le> c" and "c \<le> 2 ^ 500"
    and "1 / 2 ^ 500 \<le> r" and "r \<le> 2 ^ 500"
    and "meta1 ''CDELT2'' = Some (HNum c)"
    and "meta2 ''CDELT2'' = Some (HNum (2 * c))"
  shows "\<exists>d. size_of (run_all r meta1 k1) = Inr (Some (Fin d))
           \<and> size_of (run_all r meta2 k2) = Inr (Some (Fin (2 * d)))"
proof -
  have "between (- 500) 500 c"
    using between_nat [OF assms(1,2)] by simp
  moreover have "between (- 500) 500 r"
    using between_nat [OF assms(3,4)] by simp
  ultimately obtain d where "dx_fp r c = Fin d" and "dx_fp r (2 * c) = Fin (2 * d)"
    using dx_fp_double by blast
  then show ?thesis
    using assms(5,6) by (simp add: size_of_num)
qed

theorem doubling_in_range_witness:
  "1 / 2 ^ 500 \<le> (1 / 2 :: real) \<and> (1 / 2 :: real) \<le> 2 ^ 500
   \<and> 1 / 2 ^ 500 \<le> (695500000 :: real) \<and> (695500000 :: real) \<le> 2 ^ 500
   \<and> [''CDELT2'' \<mapsto> HNum (1 / 2)] ''CDELT2'' = Some (HNum (1 / 2))
   \<and> [''CDELT2'' \<mapsto> HNum 1] ''CDELT2'' = Some (HNum (2 * (1 / 2)))
   \<and> (\<exists>d. size_of (run_all 695500000 [''CDELT2'' \<mapsto> HNum (1 / 2)] fresh) = Inr (Some (Fin d))
          \<and> size_of (run_all 695500000 [''CDELT2'' \<mapsto> HNum 1] fresh) = Inr (Some (Fin (2 * d))))"
  using doubling_in_range
          [of "1 / 2" 695500000 "[''CDELT2'' \<mapsto> HNum (1 / 2)]" "[''CDELT2'' \<mapsto> HNum 1]" fresh fresh]
  by simp

text \<open>
  At the smallest positive double the size for \<open>2 * c\<close> is not twice the size for \<open>c\<close>,
  and at \<^verbatim>\<open>c = 3e298\<close> the size for \<open>c\<close> is finite and the size for \<open>2 * c\<close> is
  \<^verbatim>\<open>inf\<close>.
\<close>

theorem doubling_counterexample:
  "size_of (run_all 695500000 [''CDELT2'' \<mapsto> HNum (1 / 2 ^ 1074)] fresh) = Inr (Some (Fin (11591667 / 2 ^ 1074)))
   \<and> size_of (run_all 695500000 [''CDELT2'' \<mapsto> HNum (2 * (1 / 2 ^ 1074))] fresh) = Inr (Some (Fin (25115278 / 2 ^ 1074)))
   \<and> (25115278 / 2 ^ 1074 :: real) \<noteq> 2 * (11591667 / 2 ^ 1074)
   \<and> size_of (run_all 695500000 [''CDELT2'' \<mapsto> HNum (3 * 10 ^ 298)] fresh) = Inr (Some (Fin (4671000698420564 * 2 ^ 963)))
   \<and> size_of (run_all 695500000 [''CDELT2'' \<mapsto> HNum (2 * (3 * 10 ^ 298))] fresh) = Inr (Some PInf)"
proof -
  have s1: "size_of (run_all 695500000 [''CDELT2'' \<mapsto> HNum (1 / 2 ^ 1074)] fresh) = Inr (Some (Fin (11591667 / 2 ^ 1074)))"
    unfolding tiny_dx [symmetric] by (rule size_of_num) (rule fun_upd_same)
  have s2: "size_of (run_all 695500000 [''CDELT2'' \<mapsto> HNum (2 * (1 / 2 ^ 1074))] fresh) = Inr (Some (Fin (25115278 / 2 ^ 1074)))"
    unfolding tiny2_dx [symmetric] by (rule size_of_num) (rule fun_upd_same)
  have s3: "size_of (run_all 695500000 [''CDELT2'' \<mapsto> HNum (3 * 10 ^ 298)] fresh) = Inr (Some (Fin (4671000698420564 * 2 ^ 963)))"
    unfolding big_dx [symmetric] by (rule size_of_num) (rule fun_upd_same)
  have s4: "size_of (run_all 695500000 [''CDELT2'' \<mapsto> HNum (2 * (3 * 10 ^ 298))] fresh) = Inr (Some (PInf))"
    unfolding big2_dx [symmetric] by (rule size_of_num) (rule fun_upd_same)
  show ?thesis
    unfolding s1 s2 s3 s4 by simp
qed

text \<open>
  C6. For \<open>cdelt_arcsec = 0\<close> and any \<open>solar_radius_m > 0\<close> the run raises nothing and
  returns pixel size 0 and pixel area 0.
\<close>

theorem zero_cdelt_is_degenerate:
  assumes "0 < r" and "meta ''CDELT2'' = Some (HNum 0)"
  shows "\<exists>s. notebook_at r meta = Inr s \<and> pixel_size_m s = 0 \<and> pixel_area_m2 s = 0"
  using assms(2) by (simp add: notebook_at_num pixel_size_def area_def)

theorem zero_cdelt_is_degenerate_witness:
  "(0::real) < 695500000
   \<and> [''CDELT2'' \<mapsto> HNum 0] ''CDELT2'' = Some (HNum 0)
   \<and> (\<exists>s. notebook_at 695500000 [''CDELT2'' \<mapsto> HNum 0] = Inr s
          \<and> pixel_size_m s = 0 \<and> pixel_area_m2 s = 0)"
  using zero_cdelt_is_degenerate [of 695500000 "[''CDELT2'' \<mapsto> HNum 0]"]
  by simp

text \<open>
  C7. The computation is deterministic and has no hidden state: two runs of the cells,
  started from kernels in any state (whatever \<^verbatim>\<open>meta\<close>, \<^verbatim>\<open>dx\<close> and \<^verbatim>\<open>area\<close> were bound
  to before), at the same radius and on headers that give the same \<^verbatim>\<open>CDELT2\<close>, end with
  the same pixel size and the same pixel area and show the same outputs, or raise the
  same error.
\<close>

theorem same_inputs_same_result:
  assumes "meta1 ''CDELT2'' = meta2 ''CDELT2''"
  shows "size_of (run_all r meta1 k1) = size_of (run_all r meta2 k2)
         \<and> area_of (run_all r meta1 k1) = area_of (run_all r meta2 k2)
         \<and> shown (run_all r meta1 k1) = shown (run_all r meta2 k2)"
proof (cases "meta1 ''CDELT2''")
  case None
  with assms have "meta2 ''CDELT2'' = None" by simp
  with None show ?thesis
    by (simp add: run_all_missing)
next
  case (Some v)
  with assms have m2: "meta2 ''CDELT2'' = Some v" by simp
  show ?thesis
  proof (cases v)
    case (HNum c)
    with Some m2 show ?thesis
      by (simp add: size_of_num area_of_num shown_num)
  next
    case (HStr s)
    with Some m2 show ?thesis
      by (simp add: run_all_str)
  qed
qed

theorem same_inputs_same_result_witness:
  "[''CDELT2'' \<mapsto> HNum (3 / 100)] ''CDELT2''
     = [''CDELT2'' \<mapsto> HNum (3 / 100), ''NAXIS'' \<mapsto> HNum 2, ''TELESCOP'' \<mapsto> HStr ''SDO/HMI''] ''CDELT2''
   \<and> size_of (run_all 695500000 [''CDELT2'' \<mapsto> HNum (3 / 100)] fresh)
     = size_of (run_all 695500000
         [''CDELT2'' \<mapsto> HNum (3 / 100), ''NAXIS'' \<mapsto> HNum 2, ''TELESCOP'' \<mapsto> HStr ''SDO/HMI'']
         \<lparr>g_meta = Some Map.empty, g_dx = Some (Fin 1), g_area = Some NaN\<rparr>)
   \<and> area_of (run_all 695500000 [''CDELT2'' \<mapsto> HNum (3 / 100)] fresh)
     = area_of (run_all 695500000
         [''CDELT2'' \<mapsto> HNum (3 / 100), ''NAXIS'' \<mapsto> HNum 2, ''TELESCOP'' \<mapsto> HStr ''SDO/HMI'']
         \<lparr>g_meta = Some Map.empty, g_dx = Some (Fin 1), g_area = Some NaN\<rparr>)
   \<and> shown (run_all 695500000 [''CDELT2'' \<mapsto> HNum (3 / 100)] fresh)
     = shown (run_all 695500000
         [''CDELT2'' \<mapsto> HNum (3 / 100), ''NAXIS'' \<mapsto> HNum 2, ''TELESCOP'' \<mapsto> HStr ''SDO/HMI'']
         \<lparr>g_meta = Some Map.empty, g_dx = Some (Fin 1), g_area = Some NaN\<rparr>)"
  using same_inputs_same_result
          [of "[''CDELT2'' \<mapsto> HNum (3 / 100)]"
              "[''CDELT2'' \<mapsto> HNum (3 / 100), ''NAXIS'' \<mapsto> HNum 2, ''TELESCOP'' \<mapsto> HStr ''SDO/HMI'']"
              695500000 fresh
              "\<lparr>g_meta = Some Map.empty, g_dx = Some (Fin 1), g_area = Some NaN\<rparr>"]
  by simp

text \<open>
  C8, as amended. Every successful run writes exactly two lines to standard output,
  \<^verbatim>\<open>The HMI pixel size is {pixel_size_m} meters.\<close> and then
  \<^verbatim>\<open>The HMI pixel area is {pixel_area_m2} meters squared.\<close>, holding the pixel size and
  the pixel area. Between them it displays the value of the second cell,
  \<^verbatim>\<open>(dx/1000-362.5)/100\<close>, and it binds the globals \<^verbatim>\<open>meta\<close>, \<^verbatim>\<open>dx\<close> and \<^verbatim>\<open>area\<close>.
\<close>

theorem outputs_of_a_run:
  assumes "run_all r meta k = Inr (out, k')"
  shows "\<exists>d. out = [Stream [Lit ''The HMI pixel size is '', Val d, Lit '' meters.''],
                   Result (percent_fp d),
                   Stream [Lit ''The HMI pixel area is '', Val (area_fp d), Lit '' meters squared.'']]
             \<and> stdout_of out =
                  [[Lit ''The HMI pixel size is '', Val d, Lit '' meters.''],
                   [Lit ''The HMI pixel area is '', Val (area_fp d), Lit '' meters squared.'']]
             \<and> k' = k\<lparr>g_meta := Some meta, g_dx := Some d, g_area := Some (area_fp d)\<rparr>"
proof -
  from assms obtain c where c: "meta ''CDELT2'' = Some (HNum c)"
    by (rule run_all_cases)
  from assms show ?thesis
    unfolding run_all_num [of meta c r k, OF c]
    by (auto simp add: size_line_def area_line_def)
qed

theorem outputs_of_a_run_witness:
  "run_all 695500000 [''CDELT2'' \<mapsto> HNum (3 / 100)] fresh =
     Inr ([Stream (size_line (Fin (6256271815663376 / 2 ^ 34))),
           Result (Fin (4793122511011348 / 2 ^ 58)),
           Stream (area_line (Fin (8691033899546933 / 2 ^ 16)))],
          \<lparr>g_meta = Some [''CDELT2'' \<mapsto> HNum (3 / 100)],
             g_dx = Some (Fin (6256271815663376 / 2 ^ 34)),
             g_area = Some (Fin (8691033899546933 / 2 ^ 16))\<rparr>)
   \<and> stdout_of [Stream (size_line (Fin (6256271815663376 / 2 ^ 34))),
                  Result (Fin (4793122511011348 / 2 ^ 58)),
                  Stream (area_line (Fin (8691033899546933 / 2 ^ 16)))] =
       [[Lit ''The HMI pixel size is '', Val (Fin (6256271815663376 / 2 ^ 34)), Lit '' meters.''],
        [Lit ''The HMI pixel area is '', Val (Fin (8691033899546933 / 2 ^ 16)), Lit '' meters squared.'']]"
  using outputs_of_a_run [OF sample_run] sample_run
  by (auto simp add: size_line_def area_line_def)

text \<open>
  The run at \<^verbatim>\<open>CDELT2 = 0.03\<close> shows three outputs, not only the two lines.
\<close>

theorem second_cell_shown_counterexample:
  "shown (run_all 695500000 [''CDELT2'' \<mapsto> HNum (3 / 100)] fresh) =
     Inr [Stream (size_line (Fin (6256271815663376 / 2 ^ 34))),
          Result (Fin (4793122511011348 / 2 ^ 58)),
          Stream (area_line (Fin (8691033899546933 / 2 ^ 16)))]
   \<and> shown (run_all 695500000 [''CDELT2'' \<mapsto> HNum (3 / 100)] fresh) \<noteq>
     Inr [Stream (size_line (Fin (6256271815663376 / 2 ^ 34))),
          Stream (area_line (Fin (8691033899546933 / 2 ^ 16)))]"
  unfolding sample_run by (simp add: shown_def)


text \<open>
  C10, as amended. For a fixed \<open>solar_radius_m\<close> that reads as a positive finite double,
  the computed pixel size is monotonically non-decreasing in \<open>cdelt_arcsec\<close>: for all
  real \<open>c1 < c2\<close> the pixel size computed for \<open>c1\<close> is less than or equal to the pixel
  size computed for \<open>c2\<close>.
\<close>

theorem size_monotone:
  assumes "1 / 2 ^ 1074 \<le> r" and "r < threshold" and "c1 < c2"
    and "meta1 ''CDELT2'' = Some (HNum c1)"
    and "meta2 ''CDELT2'' = Some (HNum c2)"
  shows "\<exists>d1 d2. size_of (run_all r meta1 k1) = Inr (Some d1)
             \<and> size_of (run_all r meta2 k2) = Inr (Some d2)
             \<and> fle d1 d2"
proof -
  have "fle (dx_fp r c1) (dx_fp r c2)"
    using assms(1-3) by (intro dx_fp_mono) simp_all
  then show ?thesis
    using assms(4,5) by (simp add: size_of_num)
qed

theorem size_monotone_witness:
  "1 / 2 ^ 1074 \<le> (695500000 :: real) \<and> (695500000 :: real) < threshold
   \<and> (1 / 2 :: real) < 1
   \<and> [''CDELT2'' \<mapsto> HNum (1 / 2)] ''CDELT2'' = Some (HNum (1 / 2))
   \<and> [''CDELT2'' \<mapsto> HNum 1] ''CDELT2'' = Some (HNum 1)
   \<and> (\<exists>d1 d2. size_of (run_all 695500000 [''CDELT2'' \<mapsto> HNum (1 / 2)] fresh) = Inr (Some d1)
          \<and> size_of (run_all 695500000 [''CDELT2'' \<mapsto> HNum 1] fresh) = Inr (Some d2)
          \<and> fle d1 d2)"
  using size_monotone
          [of 695500000 "1 / 2" 1 "[''CDELT2'' \<mapsto> HNum (1 / 2)]" "[''CDELT2'' \<mapsto> HNum 1]" fresh fresh]
  by (simp add: threshold_def)

text \<open>
  The header values 0.03 and 0.030000000000000002 read as adjacent doubles and give the
  same pixel size.
\<close>

theorem adjacent_cdelt_counterexample:
  "(3 / 100 :: real) < 30000000000000002 / 10 ^ 18
   \<and> size_of (run_all 695500000 [''CDELT2'' \<mapsto> HNum (3 / 100)] fresh) = Inr (Some (Fin (6256271815663376 / 2 ^ 34)))
   \<and> size_of (run_all 695500000 [''CDELT2'' \<mapsto> HNum (30000000000000002 / 10 ^ 18)] fresh) = Inr (Some (Fin (6256271815663376 / 2 ^ 34)))
   \<and> \<not> flt (Fin (6256271815663376 / 2 ^ 34)) (Fin (6256271815663376 / 2 ^ 34))"
proof -
  have s1: "size_of (run_all 695500000 [''CDELT2'' \<mapsto> HNum (3 / 100)] fresh) = Inr (Some (Fin (6256271815663376 / 2 ^ 34)))"
    unfolding sample_dx [symmetric] by (rule size_of_num) (rule fun_upd_same)
  have s2: "size_of (run_all 695500000 [''CDELT2'' \<mapsto> HNum (30000000000000002 / 10 ^ 18)] fresh) = Inr (Some (Fin (6256271815663376 / 2 ^ 34)))"
    unfolding adjacent_dx [symmetric] by (rule size_of_num) (rule fun_upd_same)
  show ?thesis
    unfolding s1 s2 by (simp add: flt_def)
qed

end
